theory Spec2Isabelle
  imports Main "HOL-Library.Word"
begin

section \<open>JavaScript strings\<close>

text \<open>
  A JavaScript string is a sequence of UTF-16 code units.  String literals of
  the source are ASCII and are written with \<open>js\<close>.
\<close>

type_synonym cu = "16 word"
type_synonym jsstring = "cu list"

definition js :: "string \<Rightarrow> jsstring" where
  "js s = map (\<lambda>c. of_nat (of_char c)) s"

text \<open>
  \<open>String.prototype.trim\<close> removes the code units of WhiteSpace and
  LineTerminator (ECMAScript, TrimString) from both ends.
\<close>

definition isWhiteSpace :: "cu \<Rightarrow> bool" where
  "isWhiteSpace c \<longleftrightarrow>
     c = 0x0009 \<or> c = 0x000A \<or> c = 0x000B \<or> c = 0x000C \<or> c = 0x000D \<or>
     c = 0x0020 \<or> c = 0x00A0 \<or> c = 0x1680 \<or> (0x2000 \<le> c \<and> c \<le> 0x200A) \<or>
     c = 0x2028 \<or> c = 0x2029 \<or> c = 0x202F \<or> c = 0x205F \<or> c = 0x3000 \<or>
     c = 0xFEFF"

definition trimStart :: "jsstring \<Rightarrow> jsstring" where
  "trimStart s = dropWhile isWhiteSpace s"

definition trimEnd :: "jsstring \<Rightarrow> jsstring" where
  "trimEnd s = rev (dropWhile isWhiteSpace (rev s))"

definition trim :: "jsstring \<Rightarrow> jsstring" where
  "trim s = trimEnd (trimStart s)"

text \<open>
  \<open>payload.split('|')\<close> with a one-unit separator: the pieces between the
  separators, in order; the empty string gives one empty piece.
\<close>

fun split :: "cu \<Rightarrow> jsstring \<Rightarrow> jsstring list" where
  "split d [] = [[]]"
| "split d (c # cs) =
     (if c = d then [] # split d cs
      else (case split d cs of
              [] \<Rightarrow> [[c]]
            | p # ps \<Rightarrow> (c # p) # ps))"

section \<open>Numbers\<close>

text \<open>
  Lesson numbers and timestamps are JavaScript numbers holding integers; they
  are modelled as mathematical integers.  \<open>numberToString\<close> is what a template
  literal renders for such a number, \<open>parseInt\<close> is \<open>parseInt(str, 10)\<close>
  with \<open>None\<close> for NaN: leading white space is skipped, a sign is read, and
  the longest run of decimal digits that follows is the value.  What doubles
  do to integers beyond \<open>2^53\<close> (rounding, and the exponent notation from
  \<open>10^21\<close> on) is outside the model.
\<close>

definition digitChar :: "nat \<Rightarrow> cu" where
  "digitChar n = of_nat (48 + n)"

function digits :: "nat \<Rightarrow> jsstring" where
  "digits n = (if n < 10 then [digitChar n] else digits (n div 10) @ [digitChar (n mod 10)])"
  by pat_completeness auto
termination
  by (relation "measure id") auto

definition numberToString :: "int \<Rightarrow> jsstring" where
  "numberToString i = (if i < 0 then 0x2D # digits (nat (- i)) else digits (nat i))"

definition isDigit :: "cu \<Rightarrow> bool" where
  "isDigit c \<longleftrightarrow> 0x30 \<le> c \<and> c \<le> 0x39"

definition digitVal :: "cu \<Rightarrow> nat" where
  "digitVal c = unat c - 48"

definition mathInt :: "jsstring \<Rightarrow> nat" where
  "mathInt Z = foldl (\<lambda>a c. 10 * a + digitVal c) 0 Z"

definition parseInt :: "jsstring \<Rightarrow> int option" where
  "parseInt str =
     (let S = trimStart str;
          sign = (if S \<noteq> [] \<and> hd S = 0x2D then - 1 else 1);
          S' = (if S \<noteq> [] \<and> (hd S = 0x2B \<or> hd S = 0x2D) then tl S else S);
          Z = takeWhile isDigit S'
      in if Z = [] then None else Some (sign * int (mathInt Z)))"

section \<open>Percent-encoding\<close>

text \<open>
  \<open>encodeURIComponent\<close> and \<open>decodeURIComponent\<close> after the abstract
  operations Encode and Decode of ECMAScript.  A thrown URIError is \<open>None\<close>.
  Code points and octets are natural numbers.
\<close>

definition isUnescaped :: "cu \<Rightarrow> bool" where
  "isUnescaped c \<longleftrightarrow>
     (0x41 \<le> c \<and> c \<le> 0x5A) \<or> (0x61 \<le> c \<and> c \<le> 0x7A) \<or> (0x30 \<le> c \<and> c \<le> 0x39) \<or>
     c = 0x5F \<or> c = 0x2D \<or> c = 0x2E \<or> c = 0x21 \<or> c = 0x7E \<or> c = 0x2A \<or>
     c = 0x27 \<or> c = 0x28 \<or> c = 0x29"

definition isLeadingSurrogate :: "cu \<Rightarrow> bool" where
  "isLeadingSurrogate c \<longleftrightarrow> 0xD800 \<le> c \<and> c \<le> 0xDBFF"

definition isTrailingSurrogate :: "cu \<Rightarrow> bool" where
  "isTrailingSurrogate c \<longleftrightarrow> 0xDC00 \<le> c \<and> c \<le> 0xDFFF"

definition surrogatePairToCodePoint :: "cu \<Rightarrow> cu \<Rightarrow> nat" where
  "surrogatePairToCodePoint lead trail =
     (unat lead - 0xD800) * 0x400 + (unat trail - 0xDC00) + 0x10000"

definition utf16EncodeCodePoint :: "nat \<Rightarrow> jsstring" where
  "utf16EncodeCodePoint V =
     (if V \<le> 0xFFFF then [of_nat V]
      else [of_nat ((V - 0x10000) div 0x400 + 0xD800), of_nat ((V - 0x10000) mod 0x400 + 0xDC00)])"

definition utf8Octets :: "nat \<Rightarrow> nat list" where
  "utf8Octets V =
     (if V < 0x80 then [V]
      else if V < 0x800 then [0xC0 + V div 64, 0x80 + V mod 64]
      else if V < 0x10000 then [0xE0 + V div 4096, 0x80 + (V div 64) mod 64, 0x80 + V mod 64]
      else [0xF0 + V div 262144, 0x80 + (V div 4096) mod 64, 0x80 + (V div 64) mod 64,
            0x80 + V mod 64])"

definition isContinuation :: "nat \<Rightarrow> bool" where
  "isContinuation b \<longleftrightarrow> 0x80 \<le> b \<and> b < 0xC0"

fun utf8Decode :: "nat list \<Rightarrow> nat option" where
  "utf8Decode [b0, b1] =
     (let V = (b0 - 0xC0) * 64 + (b1 - 0x80)
      in if isContinuation b1 \<and> 0x80 \<le> V then Some V else None)"
| "utf8Decode [b0, b1, b2] =
     (let V = (b0 - 0xE0) * 4096 + (b1 - 0x80) * 64 + (b2 - 0x80)
      in if isContinuation b1 \<and> isContinuation b2 \<and> 0x800 \<le> V \<and> \<not> (0xD800 \<le> V \<and> V \<le> 0xDFFF)
         then Some V else None)"
| "utf8Decode [b0, b1, b2, b3] =
     (let V = (b0 - 0xF0) * 262144 + (b1 - 0x80) * 4096 + (b2 - 0x80) * 64 + (b3 - 0x80)
      in if isContinuation b1 \<and> isContinuation b2 \<and> isContinuation b3 \<and>
            0x10000 \<le> V \<and> V \<le> 0x10FFFF
         then Some V else None)"
| "utf8Decode _ = None"

definition hexChar :: "nat \<Rightarrow> cu" where
  "hexChar n = (if n < 10 then of_nat (48 + n) else of_nat (55 + n))"

definition percentOctet :: "nat \<Rightarrow> jsstring" where
  "percentOctet b = [0x25, hexChar (b div 16), hexChar (b mod 16)]"

definition percentEncode :: "nat \<Rightarrow> jsstring" where
  "percentEncode V = concat (map percentOctet (utf8Octets V))"

fun encodeURIComponent :: "jsstring \<Rightarrow> jsstring option" where
  "encodeURIComponent [] = Some []"
| "encodeURIComponent (c # cs) =
     (if isUnescaped c then map_option ((#) c) (encodeURIComponent cs)
      else if isLeadingSurrogate c then
        (case cs of
           [] \<Rightarrow> None
         | d # ds \<Rightarrow>
             if isTrailingSurrogate d
             then map_option ((@) (percentEncode (surrogatePairToCodePoint c d)))
                    (encodeURIComponent ds)
             else None)
      else if isTrailingSurrogate c then None
      else map_option ((@) (percentEncode (unat c))) (encodeURIComponent cs))"

definition hexVal :: "cu \<Rightarrow> nat option" where
  "hexVal c =
     (if 0x30 \<le> c \<and> c \<le> 0x39 then Some (unat c - 48)
      else if 0x41 \<le> c \<and> c \<le> 0x46 then Some (unat c - 55)
      else if 0x61 \<le> c \<and> c \<le> 0x66 then Some (unat c - 87)
      else None)"

definition parseHexOctet :: "cu \<Rightarrow> cu \<Rightarrow> nat option" where
  "parseHexOctet h l =
     (case hexVal h of
        None \<Rightarrow> None
      | Some a \<Rightarrow> (case hexVal l of None \<Rightarrow> None | Some b \<Rightarrow> Some (16 * a + b)))"

fun continuationOctets :: "nat \<Rightarrow> jsstring \<Rightarrow> (nat list \<times> jsstring) option" where
  "continuationOctets 0 s = Some ([], s)"
| "continuationOctets (Suc n) (p # h # l # s) =
     (if p = 0x25 then
        (case parseHexOctet h l of
           None \<Rightarrow> None
         | Some b \<Rightarrow>
             (case continuationOctets n s of
                None \<Rightarrow> None
              | Some (bs, r) \<Rightarrow> Some (b # bs, r)))
      else None)"
| "continuationOctets (Suc n) _ = None"

lemma continuationOctets_length:
  "continuationOctets n s = Some (bs, r) \<Longrightarrow> length r \<le> length s"
proof (induction n s arbitrary: bs r rule: continuationOctets.induct)
  case (2 n p h l s)
  then show ?case
    by (fastforce split: if_splits option.splits)
qed simp_all

function decodeURIComponent :: "jsstring \<Rightarrow> jsstring option" where
  "decodeURIComponent [] = Some []"
| "decodeURIComponent (c # s) =
     (if c \<noteq> 0x25 then map_option ((#) c) (decodeURIComponent s)
      else
        (case s of
           h # l # s' \<Rightarrow>
             (case parseHexOctet h l of
                None \<Rightarrow> None
              | Some B \<Rightarrow>
                  if B < 0x80 then map_option ((#) (of_nat B)) (decodeURIComponent s')
                  else if B < 0xC0 \<or> 0xF8 \<le> B then None
                  else
                    (case continuationOctets (if B < 0xE0 then 1 else if B < 0xF0 then 2 else 3) s' of
                       None \<Rightarrow> None
                     | Some (bs, r) \<Rightarrow>
                         (case utf8Decode (B # bs) of
                            None \<Rightarrow> None
                          | Some V \<Rightarrow>
                              map_option ((@) (utf16EncodeCodePoint V)) (decodeURIComponent r))))
         | _ \<Rightarrow> None))"
  by pat_completeness auto
termination
  by (relation "measure length") (auto dest: continuationOctets_length)

section \<open>Local storage\<close>

text \<open>
  \<open>localStorage\<close> maps string keys to string values.  The slots written by
  \<open>groupManager.js\<close> are of two kinds, told apart by the key: plain strings
  (group, display name, per-lesson draft) and reflection buckets, whose value
  is the \<open>JSON.stringify\<close> text of an array of entries.  The model keeps a
  bucket as the array that \<open>JSON.parse\<close> reads back, under the key string the
  code builds; a missing slot reads as the empty array, as
  \<open>getItem(key) || '[]'\<close> does.
\<close>

record entry =
  entry_text :: jsstring
  entry_timestamp :: int
  entry_student :: jsstring
  entry_mastery :: "bool option"

record storage =
  items :: "jsstring \<rightharpoonup> jsstring"
  buckets :: "jsstring \<rightharpoonup> entry list"

definition emptyStorage :: storage where
  "emptyStorage = \<lparr>items = Map.empty, buckets = Map.empty\<rparr>"

definition GROUP_KEY :: jsstring where
  "GROUP_KEY = js ''miniopenstax_group''"

definition REFLECTIONS_KEY_PREFIX :: jsstring where
  "REFLECTIONS_KEY_PREFIX = js ''group_reflections_''"

definition STUDENT_NAME_KEY :: jsstring where
  "STUDENT_NAME_KEY = js ''student_name''"

definition bucketKey :: "jsstring \<Rightarrow> int \<Rightarrow> jsstring" where
  "bucketKey groupId chapter =
     REFLECTIONS_KEY_PREFIX @ groupId @ js ''_'' @ numberToString chapter"

definition draftKey :: "int \<Rightarrow> jsstring" where
  "draftKey chapter = js ''reflection_'' @ numberToString chapter"

definition loadBucket :: "storage \<Rightarrow> jsstring \<Rightarrow> entry list" where
  "loadBucket s key = (case buckets s key of None \<Rightarrow> [] | Some es \<Rightarrow> es)"

definition storeBucket :: "jsstring \<Rightarrow> entry list \<Rightarrow> storage \<Rightarrow> storage" where
  "storeBucket key es s = s\<lparr>buckets := (buckets s)(key \<mapsto> es)\<rparr>"

text \<open>A value read from a string slot is falsy when it is null or the empty string.\<close>

definition falsy :: "jsstring option \<Rightarrow> bool" where
  "falsy v \<longleftrightarrow> v = None \<or> v = Some []"

section \<open>groupManager.js\<close>

datatype jsvalue = JUndefined | JNull | JBoolean bool | JNumber int | JString jsstring

definition getGroupId :: "storage \<Rightarrow> jsstring option" where
  "getGroupId s = items s GROUP_KEY"

definition setGroupId :: "jsvalue \<Rightarrow> storage \<Rightarrow> storage" where
  "setGroupId name s =
     (case name of
        JString n \<Rightarrow> if trim n \<noteq> [] then s\<lparr>items := (items s)(GROUP_KEY \<mapsto> trim n)\<rparr> else s
      | _ \<Rightarrow> s)"

text \<open>
  \<open>saveReflectionToGroup(chapter, text)\<close>; the third argument is the value of
  \<open>Date.now()\<close>.  The text is a string, as the caller in \<open>chatUI.js\<close>
  passes it; the guard \<open>!text?.trim()\<close> of the source sends null and
  undefined the way of the empty string.
\<close>

definition saveReflectionToGroup :: "int \<Rightarrow> jsstring \<Rightarrow> int \<Rightarrow> storage \<Rightarrow> storage" where
  "saveReflectionToGroup chapter text now s =
     (let groupId = getGroupId s;
          studentName = (case items s STUDENT_NAME_KEY of
                           None \<Rightarrow> js ''Anonymous''
                         | Some n \<Rightarrow> if n = [] then js ''Anonymous'' else n)
      in case groupId of
           None \<Rightarrow> s
         | Some g \<Rightarrow>
             if g = [] \<or> trim text = [] then s
             else
               (let key = bucketKey g chapter;
                    existing = loadBucket s key;
                    alreadyExists = list_ex (\<lambda>item. entry_student item = studentName \<and>
                                                     entry_text item = trim text) existing
                in if \<not> alreadyExists
                   then storeBucket key
                          (existing @ [\<lparr>entry_text = trim text, entry_timestamp = now,
                                        entry_student = studentName, entry_mastery = None\<rparr>]) s
                   else s))"

definition loadPeerReflections :: "int \<Rightarrow> storage \<Rightarrow> entry list" where
  "loadPeerReflections chapter s =
     (let groupId = getGroupId s;
          myName = items s STUDENT_NAME_KEY
      in case groupId of
           None \<Rightarrow> []
         | Some g \<Rightarrow>
             if g = [] then []
             else filter (\<lambda>reflection. Some (entry_student reflection) \<noteq> myName)
                    (loadBucket s (bucketKey g chapter)))"

text \<open>
  \<open>exportInsightPayload(chapter, mastery)\<close> returns a string or null
  (\<open>Inr None\<close>), or \<open>encodeURIComponent\<close> throws (\<open>Inl URIError\<close>).
\<close>

datatype error = URIError

definition exportInsightPayload :: "int \<Rightarrow> bool \<Rightarrow> int \<Rightarrow> storage \<Rightarrow> error + jsstring option" where
  "exportInsightPayload chapter mastery now s =
     (let groupId = getGroupId s;
          studentName = items s STUDENT_NAME_KEY;
          reflection = items s (draftKey chapter)
      in if falsy groupId \<or> falsy studentName \<or> falsy reflection then Inr None
         else
           (case encodeURIComponent (trim (the reflection)) of
              None \<Rightarrow> Inl URIError
            | Some cleanText \<Rightarrow>
                (let masteryFlag = (if mastery then js ''M'' else js ''N'')
                 in Inr (Some (the groupId @ js ''|'' @ numberToString chapter @ js ''|'' @
                               numberToString now @ js ''|'' @ cleanText @ js ''|'' @
                               the studentName @ js ''|'' @ masteryFlag)))))"

text \<open>
  \<open>importPeerInsight(payload, currentChapter)\<close> returns
  \<open>{success, message}\<close>; the model returns the storage as well.  The payload
  is a string, as \<open>handlePeerImport\<close> passes it.  The only call that can throw
  inside the \<open>try\<close> is \<open>decodeURIComponent\<close>, and the \<open>catch\<close> turns
  that into the "Failed to parse" result.
\<close>

record result =
  success :: bool
  message :: jsstring

definition groupMismatch :: "jsstring \<Rightarrow> jsstring option \<Rightarrow> jsstring" where
  "groupMismatch importGroupId currentGroup =
     js ''Insight is for group '' @ [0x22] @ importGroupId @ [0x22] @
     js '', but you're in '' @ [0x22] @
     (case currentGroup of None \<Rightarrow> js ''null'' | Some g \<Rightarrow> g) @ [0x22] @ js ''.''"

definition lessonMismatch :: "int \<Rightarrow> int \<Rightarrow> jsstring" where
  "lessonMismatch chapter currentChapter =
     js ''This insight is from Lesson '' @ numberToString (chapter + 1) @
     js '', but you're on Lesson '' @ numberToString (currentChapter + 1) @ js ''.''"

definition importPeerInsight :: "jsstring \<Rightarrow> int \<Rightarrow> storage \<Rightarrow> result \<times> storage" where
  "importPeerInsight payload currentChapter s =
     (case split 0x7C payload of
        importGroupId # chapterStr # timestampStr # encodedText # studentName # masteryFlag # _ \<Rightarrow>
          (case parseInt chapterStr of
             None \<Rightarrow> (\<lparr>success = False, message = js ''Invalid timestamp or chapter.''\<rparr>, s)
           | Some chapter \<Rightarrow>
          (case parseInt timestampStr of
             None \<Rightarrow> (\<lparr>success = False, message = js ''Invalid timestamp or chapter.''\<rparr>, s)
           | Some timestamp \<Rightarrow>
               (let currentGroup = getGroupId s
                in if Some importGroupId \<noteq> currentGroup
                   then (\<lparr>success = False,
                          message = groupMismatch importGroupId currentGroup\<rparr>, s)
                   else if chapter \<noteq> currentChapter
                   then (\<lparr>success = False,
                          message = lessonMismatch chapter currentChapter\<rparr>, s)
                   else
                     (case decodeURIComponent encodedText of
                        None \<Rightarrow>
                          (\<lparr>success = False,
                            message = js ''Failed to parse. Share via WhatsApp exactly as sent.''\<rparr>, s)
                      | Some text \<Rightarrow>
                          if trim text = []
                          then (\<lparr>success = False, message = js ''Empty reflection text.''\<rparr>, s)
                          else
                            (let key = bucketKey importGroupId chapter;
                                 existing = loadBucket s key;
                                 exists = list_ex (\<lambda>r. entry_student r = studentName \<and>
                                                        entry_text r = text) existing
                             in if \<not> exists
                                then (\<lparr>success = True,
                                       message = js ''Peer insight added successfully!''\<rparr>,
                                      storeBucket key
                                        (existing @ [\<lparr>entry_text = text, entry_timestamp = timestamp,
                                                      entry_student = studentName,
                                                      entry_mastery = Some (masteryFlag = js ''M'')\<rparr>]) s)
                                else (\<lparr>success = False,
                                       message = js ''Already imported this insight.''\<rparr>, s))))))
      | _ \<Rightarrow> (\<lparr>success = False, message = js ''Invalid format. Paste the full message.''\<rparr>, s))"

section \<open>Well-formed strings\<close>

text \<open>
  \<open>String.prototype.isWellFormed\<close>: no surrogate code unit stands alone.
  These are the strings on which \<open>encodeURIComponent\<close> does not throw.
\<close>

fun isWellFormed :: "jsstring \<Rightarrow> bool" where
  "isWellFormed [] = True"
| "isWellFormed (c # cs) =
     (if isLeadingSurrogate c then
        (case cs of [] \<Rightarrow> False | d # ds \<Rightarrow> isTrailingSurrogate d \<and> isWellFormed ds)
      else if isTrailingSurrogate c then False
      else isWellFormed cs)"

section \<open>Sequences of operations\<close>

text \<open>
  The writes to \<open>localStorage\<close> that concern the group store: the three
  mutating functions of \<open>groupManager.js\<close>, and
  \<open>localStorage.setItem\<close> on the two other slots they read, the display name
  and the draft of a lesson's reflection (\<open>chatUI.js\<close> writes both, with a
  trimmed non-empty value; here any value may be written).  \<open>run\<close> applies a
  sequence of operations from left to right.
\<close>

datatype operation =
    SetGroupId jsvalue
  | SaveReflectionToGroup int jsstring int
  | ImportPeerInsight jsstring int
  | SetStudentName jsstring
  | SaveDraft int jsstring

fun step :: "operation \<Rightarrow> storage \<Rightarrow> storage" where
  "step (SetGroupId name) s = setGroupId name s"
| "step (SaveReflectionToGroup chapter text now) s = saveReflectionToGroup chapter text now s"
| "step (ImportPeerInsight payload currentChapter) s =
     snd (importPeerInsight payload currentChapter s)"
| "step (SetStudentName name) s = s\<lparr>items := (items s)(STUDENT_NAME_KEY \<mapsto> name)\<rparr>"
| "step (SaveDraft chapter text) s = s\<lparr>items := (items s)(draftKey chapter \<mapsto> text)\<rparr>"

definition run :: "operation list \<Rightarrow> storage \<Rightarrow> storage" where
  "run ops s = foldl (\<lambda>s' op. step op s') s ops"

text \<open>The name under which \<open>saveReflectionToGroup\<close> files an entry.\<close>

definition authorName :: "storage \<Rightarrow> jsstring" where
  "authorName s =
     (case items s STUDENT_NAME_KEY of
        None \<Rightarrow> js ''Anonymous''
      | Some n \<Rightarrow> if n = [] then js ''Anonymous'' else n)"

text \<open>The identity of an entry within its bucket, and the number of entries with a given one.\<close>

definition entryKey :: "entry \<Rightarrow> jsstring \<times> jsstring" where
  "entryKey e = (entry_student e, entry_text e)"

definition countEntries :: "jsstring \<Rightarrow> jsstring \<Rightarrow> entry list \<Rightarrow> nat" where
  "countEntries student text es = length (filter (\<lambda>e. entryKey e = (student, text)) es)"

text \<open>The group slot is empty or holds a non-empty string that is its own trim.\<close>

definition groupIdValid :: "storage \<Rightarrow> bool" where
  "groupIdValid s \<longleftrightarrow>
     (case getGroupId s of None \<Rightarrow> True | Some g \<Rightarrow> g \<noteq> [] \<and> trim g = g)"

section \<open>A device in use\<close>

text \<open>
  A student named Ama who joined group 8B and wrote the draft of lesson 3; and
  the same device after a classmate's insight was imported.
\<close>

definition amaDevice :: storage where
  "amaDevice =
     run [SetStudentName (js ''Ama''), SetGroupId (JString (js '' 8B '')),
          SaveDraft 3 (js ''Hello, it's great!  '')] emptyStorage"

definition kofiPayload :: jsstring where
  "kofiPayload = js ''8B|3|1700000000000|Hello%2C%20it's%20great!|Kofi|M''"

text \<open>A payload for another group and another lesson.\<close>

definition wrongGroupAndLesson :: jsstring where
  "wrongGroupAndLesson = js ''8C|4|1700000000000|Hi|Kofi|M''"

text \<open>Ama's device after she saved her reflection and imported Kofi's insight.\<close>

definition classDevice :: storage where
  "classDevice =
     run [SaveReflectionToGroup 3 (js ''Hello, it's great!  '') 1699999999999,
          ImportPeerInsight kofiPayload 3] amaDevice"

text \<open>
  Kofi's device, in the same group; and devices whose group name, display name
  or draft strain the payload format: a group name with the delimiter in it, a
  display name with the delimiter in it, an empty display name, and a draft
  that is a lone leading surrogate.
\<close>

definition kofiDevice :: storage where
  "kofiDevice = run [SetStudentName (js ''Kofi''), SetGroupId (JString (js ''8B''))] emptyStorage"

definition amaPayload :: jsstring where
  "amaPayload = js ''8B|3|1700000000000|Hello%2C%20it's%20great!|Ama|M''"

definition barGroupDevice :: storage where
  "barGroupDevice =
     run [SetStudentName (js ''Ama''), SetGroupId (JString (js ''8|B'')),
          SaveDraft 3 (js ''Hi'')] emptyStorage"

definition barNameDevice :: storage where
  "barNameDevice =
     run [SetStudentName (js ''Ama|M''), SetGroupId (JString (js ''8B'')),
          SaveDraft 3 (js ''Hi'')] emptyStorage"

definition emptyNameDevice :: storage where
  "emptyNameDevice =
     run [SetStudentName [], SetGroupId (JString (js ''8B'')),
          SaveDraft 3 (js ''Hi'')] emptyStorage"

definition surrogateDevice :: storage where
  "surrogateDevice =
     run [SetStudentName (js ''Ama''), SetGroupId (JString (js ''8B'')),
          SaveDraft 3 [0xD83D]] emptyStorage"

section \<open>Numbers: rendering and parsing\<close>

declare digits.simps [simp del]

lemma unat_digitChar: "d < 10 \<Longrightarrow> unat (digitChar d) = 48 + d"
  unfolding digitChar_def by (subst unat_of_nat) simp

lemma isDigit_digitChar: "d < 10 \<Longrightarrow> isDigit (digitChar d)"
  by (simp add: isDigit_def word_le_nat_alt unat_digitChar)

lemma digitVal_digitChar: "d < 10 \<Longrightarrow> digitVal (digitChar d) = d"
  by (simp add: digitVal_def unat_digitChar)

lemma digits_isDigit: "c \<in> set (digits n) \<Longrightarrow> isDigit c"
proof (induction n rule: digits.induct)
  case (1 n)
  then show ?case
    by (subst (asm) (2) digits.simps) (auto simp: isDigit_digitChar split: if_splits)
qed

lemma digits_nonempty: "digits n \<noteq> []"
  by (subst digits.simps) simp

lemma mathInt_snoc: "mathInt (Z @ [c]) = 10 * mathInt Z + digitVal c"
  by (simp add: mathInt_def)

lemma mathInt_digits: "mathInt (digits n) = n"
proof (induction n rule: digits.induct)
  case (1 n)
  show ?case
  proof (cases "n < 10")
    case True
    then show ?thesis
      by (subst digits.simps) (simp add: mathInt_def digitVal_digitChar)
  next
    case False
    with 1 show ?thesis
      by (subst digits.simps) (simp add: mathInt_snoc digitVal_digitChar)
  qed
qed

lemma isDigit_not_space: "isDigit c \<Longrightarrow> \<not> isWhiteSpace c"
  by (auto simp: isDigit_def isWhiteSpace_def word_le_nat_alt)

lemma isDigit_not_sign: "isDigit c \<Longrightarrow> c \<noteq> 0x2B \<and> c \<noteq> 0x2D"
  by (auto simp: isDigit_def)

lemma takeWhile_digits: "takeWhile isDigit (digits n) = digits n"
  by (simp add: digits_isDigit)

lemma hd_digits: "isDigit (hd (digits n))"
  using digits_nonempty [of n] digits_isDigit [of "hd (digits n)" n] by simp

lemma parseInt_digits: "parseInt (digits n) = Some (int n)"
proof -
  have "trimStart (digits n) = digits n"
    using hd_digits [of n] digits_nonempty [of n]
    by (cases "digits n") (auto simp: trimStart_def isDigit_not_space)
  then show ?thesis
    using hd_digits [of n] digits_nonempty [of n] isDigit_not_sign [of "hd (digits n)"]
    by (simp add: parseInt_def Let_def takeWhile_digits mathInt_digits)
qed

lemma parseInt_numberToString: "parseInt (numberToString i) = Some i"
proof (cases "i < 0")
  case False
  then show ?thesis by (simp add: numberToString_def parseInt_digits)
next
  case True
  have "\<not> isWhiteSpace 0x2D" by (simp add: isWhiteSpace_def)
  then have "trimStart (0x2D # digits (nat (- i))) = 0x2D # digits (nat (- i))"
    by (simp add: trimStart_def)
  with True show ?thesis
    by (simp add: numberToString_def parseInt_def Let_def takeWhile_digits mathInt_digits digits_nonempty)
qed

lemma numberToString_inject: "numberToString i = numberToString j \<longleftrightarrow> i = j"
  by (metis parseInt_numberToString option.inject)

lemma numberToString_chars: "c \<in> set (numberToString i) \<Longrightarrow> isDigit c \<or> c = 0x2D"
  by (auto simp: numberToString_def digits_isDigit split: if_splits)

lemma last_sep_unique:
  assumes "x \<notin> set b" "x \<notin> set b'" "a @ x # b = a' @ x # b'"
  shows "a = a' \<and> b = b'"
proof -
  have "rev b @ x # rev a = rev b' @ x # rev a'"
    using assms(3) by (metis rev.simps(2) rev_append append_assoc append_Cons append_Nil)
  moreover have "takeWhile (\<lambda>y. y \<noteq> x) (rev b @ x # rev a) = rev b"
    using assms(1) by (auto simp: takeWhile_tail)
  moreover have "takeWhile (\<lambda>y. y \<noteq> x) (rev b' @ x # rev a') = rev b'"
    using assms(2) by (auto simp: takeWhile_tail)
  ultimately have "b = b'" by (metis rev_rev_ident)
  with assms(3) show ?thesis by simp
qed

lemma bucketKey_inject: "bucketKey g L = bucketKey g' L' \<longleftrightarrow> g = g' \<and> L = L'"
proof
  assume "bucketKey g L = bucketKey g' L'"
  then have e: "g @ 0x5F # numberToString L = g' @ 0x5F # numberToString L'"
    by (simp add: bucketKey_def js_def)
  have "0x5F \<notin> set (numberToString L)" "0x5F \<notin> set (numberToString L')"
    using numberToString_chars [of "0x5F"] by (auto simp: isDigit_def)
  from last_sep_unique [OF this e] show "g = g' \<and> L = L'"
    by (simp add: numberToString_inject)
qed simp

section \<open>Trimming and splitting\<close>

lemma trimEnd_prefix: "s = trimEnd s @ rev (takeWhile isWhiteSpace (rev s))"
proof -
  have "rev (trimEnd s @ rev (takeWhile isWhiteSpace (rev s))) = rev s"
    unfolding trimEnd_def rev_append rev_rev_ident by (rule takeWhile_dropWhile_id)
  then show ?thesis
    by (metis rev_rev_ident)
qed

lemma trimEnd_last: "trimEnd s \<noteq> [] \<Longrightarrow> \<not> isWhiteSpace (last (trimEnd s))"
  using hd_dropWhile [of isWhiteSpace "rev s"] by (simp add: trimEnd_def last_rev)

lemma trimEnd_hd: "trimEnd s \<noteq> [] \<Longrightarrow> hd (trimEnd s) = hd s"
  using trimEnd_prefix [of s] by (metis hd_append2)

lemma trim_ends:
  assumes "trim s \<noteq> []"
  shows "\<not> isWhiteSpace (hd (trim s)) \<and> \<not> isWhiteSpace (last (trim s))"
proof -
  from assms have ne: "trimStart s \<noteq> []"
    by (auto simp: trim_def trimEnd_def)
  then have "\<not> isWhiteSpace (hd (trimStart s))"
    unfolding trimStart_def by (rule hd_dropWhile)
  with assms show ?thesis
    by (simp add: trim_def trimEnd_hd trimEnd_last)
qed

lemma trim_fixed:
  assumes "s = [] \<or> (\<not> isWhiteSpace (hd s) \<and> \<not> isWhiteSpace (last s))"
  shows "trim s = s"
proof (cases "s = []")
  case True
  then show ?thesis by (simp add: trim_def trimStart_def trimEnd_def)
next
  case False
  with assms have h: "\<not> isWhiteSpace (hd s)" and l: "\<not> isWhiteSpace (last s)" by auto
  from False h have "trimStart s = s"
    by (cases s) (auto simp: trimStart_def)
  moreover from False l have "dropWhile isWhiteSpace (rev s) = rev s"
    by (cases "rev s") (auto simp: last_rev [symmetric] hd_rev)
  ultimately show ?thesis by (simp add: trim_def trimEnd_def)
qed

lemma trim_idem: "trim (trim s) = trim s"
  using trim_ends [of s] by (intro trim_fixed) blast

lemma split_nonempty: "split d s \<noteq> []"
  by (induction s) (auto split: list.splits)

lemma split_no_sep: "d \<notin> set a \<Longrightarrow> split d a = [a]"
  by (induction a) auto

lemma split_append: "d \<notin> set a \<Longrightarrow> split d (a @ d # b) = a # split d b"
  by (induction a) auto

section \<open>Percent-encoding: decoding what was encoded\<close>

lemma unat_hexChar: "n < 16 \<Longrightarrow> unat (hexChar n) = (if n < 10 then 48 + n else 55 + n)"
  unfolding hexChar_def by (auto simp: unat_of_nat simp del: of_nat_add)

lemma hexVal_hexChar: "n < 16 \<Longrightarrow> hexVal (hexChar n) = Some n"
  unfolding hexVal_def word_le_nat_alt by (auto simp: unat_hexChar)

lemma parseHexOctet_hexChar:
  "b < 256 \<Longrightarrow> parseHexOctet (hexChar (b div 16)) (hexChar (b mod 16)) = Some b"
  by (simp add: parseHexOctet_def hexVal_hexChar)

lemma hexChar_not_bar: "n < 16 \<Longrightarrow> hexChar n \<noteq> 0x7C"
  using unat_hexChar [of n] by (auto split: if_splits)

lemma utf8Octets_bound: "V < 0x110000 \<Longrightarrow> b \<in> set (utf8Octets V) \<Longrightarrow> b < 256"
  by (auto simp: utf8Octets_def split: if_splits)

lemma percentOctet_not_bar: "b < 256 \<Longrightarrow> 0x7C \<notin> set (percentOctet b)"
  using hexChar_not_bar [of "b div 16"] hexChar_not_bar [of "b mod 16"]
  by (auto simp: percentOctet_def)

lemma percentEncode_not_bar: "V < 0x110000 \<Longrightarrow> 0x7C \<notin> set (percentEncode V)"
  by (auto simp: percentEncode_def dest: utf8Octets_bound percentOctet_not_bar)

lemma surrogatePair_bound:
  "isLeadingSurrogate c \<Longrightarrow> isTrailingSurrogate d \<Longrightarrow>
     0x10000 \<le> surrogatePairToCodePoint c d \<and> surrogatePairToCodePoint c d < 0x110000"
  unfolding isLeadingSurrogate_def isTrailingSurrogate_def surrogatePairToCodePoint_def
    word_le_nat_alt
  by simp arith

lemma unat_cu_bound: "unat (c :: cu) < 0x10000"
  using unsigned_less [of c, where ?'a = nat] by simp

lemma encodeURIComponent_not_bar:
  "encodeURIComponent s = Some e \<Longrightarrow> 0x7C \<notin> set e"
proof (induction s arbitrary: e rule: encodeURIComponent.induct)
  case 1
  then show ?case by simp
next
  case (2 c cs)
  show ?case
  proof (cases "isUnescaped c")
    case True
    with 2 show ?thesis by (auto simp: isUnescaped_def)
  next
    case False
    note nu = this
    show ?thesis
    proof (cases "isLeadingSurrogate c")
      case True
      with nu 2 show ?thesis
        by (auto split: list.splits if_splits
            dest!: percentEncode_not_bar [OF conjunct2 [OF surrogatePair_bound]])
    next
      case False
      have "unat c < 0x110000" using unat_cu_bound [of c] by simp
      with False nu 2 show ?thesis
        by (auto split: if_splits dest: percentEncode_not_bar)
    qed
  qed
qed

lemma div_mod_64_3: "(V::nat) div 4096 * 4096 + (V div 64) mod 64 * 64 + V mod 64 = V"
proof -
  have a: "V div 4096 = V div 64 div 64" by (simp add: div_mult2_eq [symmetric])
  have b: "V div 64 = V div 64 div 64 * 64 + V div 64 mod 64" by simp
  have c: "V = V div 64 * 64 + V mod 64" by simp
  show ?thesis unfolding a using b c by linarith
qed

lemma div_mod_64_4:
  "(V::nat) div 262144 * 262144 + (V div 4096) mod 64 * 4096 + (V div 64) mod 64 * 64 + V mod 64 = V"
proof -
  have a: "V div 262144 = V div 4096 div 64" by (simp add: div_mult2_eq [symmetric])
  have b: "V div 4096 = V div 4096 div 64 * 64 + V div 4096 mod 64" by simp
  show ?thesis unfolding a using b div_mod_64_3 [of V] by linarith
qed

lemma utf8Decode_two:
  assumes "0x80 \<le> V" "V < 0x800"
  shows "utf8Decode [0xC0 + V div 64, 0x80 + V mod 64] = Some V"
  using assms by (simp add: isContinuation_def Let_def)

lemma utf8Decode_three:
  assumes "0x800 \<le> V" "V < 0x10000" "\<not> (0xD800 \<le> V \<and> V \<le> 0xDFFF)"
  shows "utf8Decode [0xE0 + V div 4096, 0x80 + (V div 64) mod 64, 0x80 + V mod 64] = Some V"
  using assms div_mod_64_3 [of V] by (simp add: isContinuation_def Let_def)

lemma utf8Decode_four:
  assumes "0x10000 \<le> V" "V < 0x110000"
  shows "utf8Decode [0xF0 + V div 262144, 0x80 + (V div 4096) mod 64,
                     0x80 + (V div 64) mod 64, 0x80 + V mod 64] = Some V"
  using assms div_mod_64_4 [of V] by (simp add: isContinuation_def Let_def)

lemma decode_percentOctet:
  "b < 256 \<Longrightarrow>
   decodeURIComponent (percentOctet b @ s) =
     (if b < 0x80 then map_option ((#) (of_nat b)) (decodeURIComponent s)
      else if b < 0xC0 \<or> 0xF8 \<le> b then None
      else
        (case continuationOctets (if b < 0xE0 then 1 else if b < 0xF0 then 2 else 3) s of
           None \<Rightarrow> None
         | Some (bs, r) \<Rightarrow>
             (case utf8Decode (b # bs) of
                None \<Rightarrow> None
              | Some V \<Rightarrow> map_option ((@) (utf16EncodeCodePoint V)) (decodeURIComponent r))))"
  unfolding percentOctet_def by (simp add: parseHexOctet_hexChar)

lemma continuationOctets_percentOctet:
  "b < 256 \<Longrightarrow>
   continuationOctets (Suc n) (percentOctet b @ s) =
     (case continuationOctets n s of None \<Rightarrow> None | Some (bs, r) \<Rightarrow> Some (b # bs, r))"
  unfolding percentOctet_def by (simp add: parseHexOctet_hexChar)

lemma decode_two:
  assumes "0xC0 \<le> b0" "b0 < 0xE0" "b1 < 256" "utf8Decode [b0, b1] = Some V"
  shows "decodeURIComponent (percentOctet b0 @ percentOctet b1 @ r) =
           map_option ((@) (utf16EncodeCodePoint V)) (decodeURIComponent r)"
proof -
  from assms have "b0 < 256" "\<not> b0 < 0x80" "\<not> (b0 < 0xC0 \<or> 0xF8 \<le> b0)" by simp_all
  then show ?thesis
    using assms(2,4)
    by (simp only: decode_percentOctet if_False if_True One_nat_def
        continuationOctets_percentOctet [OF assms(3)] continuationOctets.simps
        option.case prod.case)
qed


lemma decode_three:
  assumes "0xE0 \<le> b0" "b0 < 0xF0" "b1 < 256" "b2 < 256" "utf8Decode [b0, b1, b2] = Some V"
  shows "decodeURIComponent (percentOctet b0 @ percentOctet b1 @ percentOctet b2 @ r) =
           map_option ((@) (utf16EncodeCodePoint V)) (decodeURIComponent r)"
proof -
  from assms have "b0 < 256" "\<not> b0 < 0x80" "\<not> (b0 < 0xC0 \<or> 0xF8 \<le> b0)" "\<not> b0 < 0xE0"
    by simp_all
  then show ?thesis
    using assms(2,5)
    by (simp only: decode_percentOctet if_False if_True numeral_2_eq_2
        continuationOctets_percentOctet [OF assms(3)] continuationOctets_percentOctet [OF assms(4)]
        continuationOctets.simps option.case prod.case)
qed

lemma decode_four:
  assumes "0xF0 \<le> b0" "b0 < 0xF8" "b1 < 256" "b2 < 256" "b3 < 256"
    "utf8Decode [b0, b1, b2, b3] = Some V"
  shows "decodeURIComponent
           (percentOctet b0 @ percentOctet b1 @ percentOctet b2 @ percentOctet b3 @ r) =
           map_option ((@) (utf16EncodeCodePoint V)) (decodeURIComponent r)"
proof -
  from assms have "b0 < 256" "\<not> b0 < 0x80" "\<not> (b0 < 0xC0 \<or> 0xF8 \<le> b0)" "\<not> b0 < 0xE0"
    "\<not> b0 < 0xF0"
    by simp_all
  then show ?thesis
    using assms(6)
    by (simp only: decode_percentOctet if_False if_True numeral_3_eq_3
        continuationOctets_percentOctet [OF assms(3)] continuationOctets_percentOctet [OF assms(4)]
        continuationOctets_percentOctet [OF assms(5)]
        continuationOctets.simps option.case prod.case)
qed

lemma cons_as_append: "(@) [x] = (#) x"
  by (rule ext) simp

lemma decode_percentEncode:
  assumes "V < 0x110000" "\<not> (0xD800 \<le> V \<and> V \<le> 0xDFFF)"
  shows "decodeURIComponent (percentEncode V @ r) =
           map_option ((@) (utf16EncodeCodePoint V)) (decodeURIComponent r)"
proof -
  consider "V < 0x80" | "0x80 \<le> V" "V < 0x800" | "0x800 \<le> V" "V < 0x10000" | "0x10000 \<le> V"
    by linarith
  then show ?thesis
  proof cases
    case 1
    then show ?thesis
      by (simp add: percentEncode_def utf8Octets_def decode_percentOctet utf16EncodeCodePoint_def
          cons_as_append)
  next
    case 2
    have "decodeURIComponent (percentOctet (0xC0 + V div 64) @ percentOctet (0x80 + V mod 64) @ r) =
           map_option ((@) (utf16EncodeCodePoint V)) (decodeURIComponent r)"
    proof (rule decode_two)
      show "utf8Decode [0xC0 + V div 64, 0x80 + V mod 64] = Some V"
        using 2 by (rule utf8Decode_two)
    qed (use 2 in simp_all)
    with 2 show ?thesis
      by (simp add: percentEncode_def utf8Octets_def)
  next
    case 3
    have "decodeURIComponent (percentOctet (0xE0 + V div 4096) @
            percentOctet (0x80 + (V div 64) mod 64) @ percentOctet (0x80 + V mod 64) @ r) =
           map_option ((@) (utf16EncodeCodePoint V)) (decodeURIComponent r)"
    proof (rule decode_three)
      show "utf8Decode [0xE0 + V div 4096, 0x80 + (V div 64) mod 64, 0x80 + V mod 64] = Some V"
        using 3 assms(2) by (rule utf8Decode_three)
    qed (use 3 in simp_all)
    with 3 show ?thesis
      by (simp add: percentEncode_def utf8Octets_def)
  next
    case 4
    have "decodeURIComponent (percentOctet (0xF0 + V div 262144) @
            percentOctet (0x80 + (V div 4096) mod 64) @
            percentOctet (0x80 + (V div 64) mod 64) @ percentOctet (0x80 + V mod 64) @ r) =
           map_option ((@) (utf16EncodeCodePoint V)) (decodeURIComponent r)"
    proof (rule decode_four)
      show "utf8Decode [0xF0 + V div 262144, 0x80 + (V div 4096) mod 64,
                     0x80 + (V div 64) mod 64, 0x80 + V mod 64] = Some V"
        using 4 assms(1) by (rule utf8Decode_four)
    qed (use 4 assms(1) in simp_all)
    with 4 show ?thesis
      by (simp add: percentEncode_def utf8Octets_def)
  qed
qed

lemma utf16_unit: "utf16EncodeCodePoint (unat (c :: cu)) = [c]"
  using unat_cu_bound [of c] by (simp add: utf16EncodeCodePoint_def)

lemma utf16_pair:
  assumes "isLeadingSurrogate c" "isTrailingSurrogate d"
  shows "utf16EncodeCodePoint (surrogatePairToCodePoint c d) = [c, d]"
proof -
  from assms have c: "0xD800 \<le> unat c" "unat c \<le> 0xDBFF" and d: "0xDC00 \<le> unat d" "unat d \<le> 0xDFFF"
    by (simp_all add: isLeadingSurrogate_def isTrailingSurrogate_def word_le_nat_alt)
  define hi lo where "hi = unat c - 0xD800" and "lo = unat d - 0xDC00"
  have lo: "lo < 0x400" using d by (simp add: lo_def)
  have V: "surrogatePairToCodePoint c d = hi * 0x400 + lo + 0x10000"
    by (simp add: surrogatePairToCodePoint_def hi_def lo_def)
  have "(hi * 0x400 + lo) div 0x400 = hi" "(hi * 0x400 + lo) mod 0x400 = lo"
    using lo by simp_all
  moreover have "hi + 0xD800 = unat c" "lo + 0xDC00 = unat d"
    using c d by (simp_all add: hi_def lo_def)
  ultimately have "utf16EncodeCodePoint (hi * 0x400 + lo + 0x10000) = [of_nat (unat c), of_nat (unat d)]"
    by (simp add: utf16EncodeCodePoint_def)
  then show ?thesis
    by (simp add: V)
qed

lemma surrogate_unat:
  "\<not> isLeadingSurrogate c \<Longrightarrow> \<not> isTrailingSurrogate c \<Longrightarrow> \<not> (0xD800 \<le> unat c \<and> unat c \<le> 0xDFFF)"
  by (auto simp: isLeadingSurrogate_def isTrailingSurrogate_def word_le_nat_alt)

lemma isUnescaped_not_percent: "isUnescaped c \<Longrightarrow> c \<noteq> 0x25"
  by (auto simp: isUnescaped_def)

lemma decode_encode:
  "encodeURIComponent s = Some e \<Longrightarrow> decodeURIComponent e = Some s"
proof (induction s arbitrary: e rule: encodeURIComponent.induct)
  case 1
  then show ?case by simp
next
  case (2 c cs)
  show ?case
  proof (cases "isUnescaped c")
    case True
    with 2 obtain e' where e: "e = c # e'" and e': "encodeURIComponent cs = Some e'"
      by auto
    from 2(1) [OF True e'] True show ?thesis
      by (simp add: e isUnescaped_not_percent)
  next
    case nu: False
    show ?thesis
    proof (cases "isLeadingSurrogate c")
      case lead: True
      with nu 2(4) obtain d ds e' where cs: "cs = d # ds" and d: "isTrailingSurrogate d"
        and e: "e = percentEncode (surrogatePairToCodePoint c d) @ e'"
        and e': "encodeURIComponent ds = Some e'"
        by (auto split: list.splits if_splits)
      have b: "surrogatePairToCodePoint c d < 0x110000"
        "\<not> (0xD800 \<le> surrogatePairToCodePoint c d \<and> surrogatePairToCodePoint c d \<le> 0xDFFF)"
        using surrogatePair_bound [OF lead d] by simp_all
      from 2(2) [OF nu lead cs d e'] show ?thesis
        by (simp add: e decode_percentEncode [OF b] utf16_pair [OF lead d] cs)
    next
      case nl: False
      with nu 2(4) obtain e' where nt: "\<not> isTrailingSurrogate c"
        and e: "e = percentEncode (unat c) @ e'"
        and e': "encodeURIComponent cs = Some e'"
        by (auto split: if_splits)
      have b: "unat c < 0x110000" "\<not> (0xD800 \<le> unat c \<and> unat c \<le> 0xDFFF)"
        using unat_cu_bound [of c] surrogate_unat [OF nl nt] by simp_all
      from 2(3) [OF nu nl nt e'] show ?thesis
        by (simp add: e decode_percentEncode [OF b] utf16_unit)
    qed
  qed
qed

section \<open>Reading the fields of a payload\<close>

lemma six_fields:
  "6 \<le> length xs \<Longrightarrow> xs = xs ! 0 # xs ! 1 # xs ! 2 # xs ! 3 # xs ! 4 # xs ! 5 # drop 6 xs"
  by (cases xs; simp; cases "tl xs"; simp; cases "tl (tl xs)"; simp; cases "tl (tl (tl xs))"; simp;
      cases "tl (tl (tl (tl xs)))"; simp; cases "tl (tl (tl (tl (tl xs))))"; simp)

lemma few_fields:
  "length xs < 6 \<Longrightarrow>
     (case xs of a # b # c # d # e # f # r \<Rightarrow> X a b c d e f r | _ \<Rightarrow> Y) = Y"
  by (auto split: list.splits)

lemma fieldsE:
  assumes "6 \<le> length xs"
  obtains g c t e n m r where "xs = g # c # t # e # n # m # r"
    and "xs ! 0 = g" and "xs ! 1 = c" and "xs ! 2 = t" and "xs ! 3 = e" and "xs ! 4 = n"
    and "xs ! 5 = m"
proof -
  from six_fields [OF assms] obtain r where
    "xs = xs ! 0 # xs ! 1 # xs ! 2 # xs ! 3 # xs ! 4 # xs ! 5 # r"
    by blast
  then show ?thesis
    by (intro that [of "xs ! 0" "xs ! 1" "xs ! 2" "xs ! 3" "xs ! 4" "xs ! 5" r]) simp_all
qed

section \<open>The import, case by case\<close>

lemma groupMismatch_not_lessonMismatch: "groupMismatch g cg \<noteq> lessonMismatch c L"
  by (simp add: groupMismatch_def lessonMismatch_def js_def)

lemma importPeerInsight_items: "items (snd (importPeerInsight p L s)) = items s"
  unfolding importPeerInsight_def
  by (simp add: Let_def storeBucket_def split: list.splits option.splits)

lemma importPeerInsight_failure:
  "\<not> success (fst (importPeerInsight p L s)) \<Longrightarrow> snd (importPeerInsight p L s) = s"
  unfolding importPeerInsight_def
  by (simp add: Let_def split: list.splits option.splits if_splits)

lemma importPeerInsight_success:
  assumes "success (fst (importPeerInsight p L s))"
  obtains g c t e n m r tx ts where
    "split 0x7C p = g # c # t # e # n # m # r"
    "parseInt c = Some L" "parseInt t = Some ts" "getGroupId s = Some g"
    "decodeURIComponent e = Some tx" "trim tx \<noteq> []"
    "\<not> list_ex (\<lambda>r. entry_student r = n \<and> entry_text r = tx) (loadBucket s (bucketKey g L))"
    "importPeerInsight p L s =
       (\<lparr>success = True, message = js ''Peer insight added successfully!''\<rparr>,
        storeBucket (bucketKey g L)
          (loadBucket s (bucketKey g L) @
             [\<lparr>entry_text = tx, entry_timestamp = ts, entry_student = n,
               entry_mastery = Some (m = js ''M'')\<rparr>]) s)"
  using assms unfolding importPeerInsight_def
  by (simp add: Let_def split: list.splits option.splits if_splits)

lemma importPeerInsight_accept:
  assumes "split 0x7C p = g # c # t # e # n # m # r"
    and "parseInt c = Some L" and "parseInt t = Some ts" and "getGroupId s = Some g"
    and "decodeURIComponent e = Some tx" and "trim tx \<noteq> []"
    and "\<not> list_ex (\<lambda>r. entry_student r = n \<and> entry_text r = tx) (loadBucket s (bucketKey g L))"
  shows "importPeerInsight p L s =
           (\<lparr>success = True, message = js ''Peer insight added successfully!''\<rparr>,
            storeBucket (bucketKey g L)
              (loadBucket s (bucketKey g L) @
                 [\<lparr>entry_text = tx, entry_timestamp = ts, entry_student = n,
                   entry_mastery = Some (m = js ''M'')\<rparr>]) s)"
  unfolding importPeerInsight_def assms(1) using assms(2-) by (simp add: Let_def)

lemma importPeerInsight_duplicate:
  assumes "split 0x7C p = g # c # t # e # n # m # r"
    and "parseInt c = Some L" and "parseInt t = Some ts" and "getGroupId s = Some g"
    and "decodeURIComponent e = Some tx" and "trim tx \<noteq> []"
    and "list_ex (\<lambda>r. entry_student r = n \<and> entry_text r = tx) (loadBucket s (bucketKey g L))"
  shows "importPeerInsight p L s =
           (\<lparr>success = False, message = js ''Already imported this insight.''\<rparr>, s)"
  unfolding importPeerInsight_def assms(1) using assms(2-) by (simp add: Let_def)

lemma loadBucket_storeBucket: "loadBucket (storeBucket k es s) k = es"
  by (simp add: loadBucket_def storeBucket_def)

lemma storeBucket_twice: "storeBucket k es (storeBucket k es' s) = storeBucket k es s"
  by (simp add: storeBucket_def)

lemma getGroupId_storeBucket: "getGroupId (storeBucket k es s) = getGroupId s"
  by (simp add: getGroupId_def storeBucket_def)

lemma items_storeBucket: "items (storeBucket k es s) = items s"
  by (simp add: storeBucket_def)

section \<open>The example device, evaluated\<close>

lemmas string_eval = js_def trim_def trimStart_def trimEnd_def isWhiteSpace_def
lemmas number_eval = parseInt_def isDigit_def mathInt_def digitVal_def numberToString_def
  digits.simps digitChar_def
lemmas uri_eval = parseHexOctet_def hexVal_def utf8Octets_def percentEncode_def percentOctet_def
  hexChar_def isUnescaped_def isLeadingSurrogate_def isTrailingSurrogate_def
  surrogatePairToCodePoint_def utf16EncodeCodePoint_def isContinuation_def
lemmas storage_eval = emptyStorage_def GROUP_KEY_def STUDENT_NAME_KEY_def REFLECTIONS_KEY_PREFIX_def
  bucketKey_def draftKey_def loadBucket_def storeBucket_def getGroupId_def setGroupId_def run_def

lemma amaDevice_items:
  "items amaDevice =
     [STUDENT_NAME_KEY \<mapsto> js ''Ama'', GROUP_KEY \<mapsto> js ''8B'',
      draftKey 3 \<mapsto> js ''Hello, it's great!  '']"
  by (simp add: amaDevice_def run_def setGroupId_def emptyStorage_def string_eval)

lemma amaDevice_buckets: "buckets amaDevice = Map.empty"
  by (simp add: amaDevice_def run_def setGroupId_def emptyStorage_def string_eval)

lemma amaDevice_group: "getGroupId amaDevice = Some (js ''8B'')"
  by (simp add: getGroupId_def amaDevice_items GROUP_KEY_def STUDENT_NAME_KEY_def draftKey_def js_def)

lemma kofi_fields:
  "split 0x7C kofiPayload =
     [js ''8B'', js ''3'', js ''1700000000000'', js ''Hello%2C%20it's%20great!'', js ''Kofi'', js ''M'']"
  by (simp add: kofiPayload_def js_def)

lemma kofi_lesson: "parseInt (js ''3'') = Some 3"
  by (simp add: string_eval number_eval)

lemma kofi_timestamp: "parseInt (js ''1700000000000'') = Some 1700000000000"
  by (simp add: string_eval number_eval)

lemma kofi_text: "decodeURIComponent (js ''Hello%2C%20it's%20great!'') = Some (js ''Hello, it's great!'')"
  by (simp add: js_def uri_eval)

lemma kofi_text_trim: "trim (js ''Hello, it's great!'') \<noteq> []"
  by (simp add: string_eval)

lemma amaDevice_name: "items amaDevice STUDENT_NAME_KEY = Some (js ''Ama'')"
  by (simp add: amaDevice_items GROUP_KEY_def STUDENT_NAME_KEY_def draftKey_def js_def)

lemma amaDevice_saved:
  "saveReflectionToGroup 3 (js ''Hello, it's great!  '') 1699999999999 amaDevice =
     storeBucket (bucketKey (js ''8B'') 3)
       [\<lparr>entry_text = js ''Hello, it's great!'', entry_timestamp = 1699999999999,
         entry_student = js ''Ama'', entry_mastery = None\<rparr>] amaDevice"
  unfolding saveReflectionToGroup_def
  by (simp add: Let_def amaDevice_group amaDevice_name loadBucket_def amaDevice_buckets string_eval)

lemma kofi_import:
  "importPeerInsight kofiPayload 3 amaDevice =
     (\<lparr>success = True, message = js ''Peer insight added successfully!''\<rparr>,
      storeBucket (bucketKey (js ''8B'') 3)
        [\<lparr>entry_text = js ''Hello, it's great!'', entry_timestamp = 1700000000000,
          entry_student = js ''Kofi'', entry_mastery = Some True\<rparr>] amaDevice)"
proof -
  have n: "\<not> list_ex (\<lambda>r. entry_student r = js ''Kofi'' \<and> entry_text r = js ''Hello, it's great!'')
             (loadBucket amaDevice (bucketKey (js ''8B'') 3))"
    by (simp add: loadBucket_def amaDevice_buckets)
  from importPeerInsight_accept [OF kofi_fields kofi_lesson kofi_timestamp amaDevice_group
      kofi_text kofi_text_trim n]
  show ?thesis
    by (simp add: loadBucket_def amaDevice_buckets)
qed

lemma classDevice_eq:
  "classDevice =
     storeBucket (bucketKey (js ''8B'') 3)
       [\<lparr>entry_text = js ''Hello, it's great!'', entry_timestamp = 1699999999999,
         entry_student = js ''Ama'', entry_mastery = None\<rparr>,
        \<lparr>entry_text = js ''Hello, it's great!'', entry_timestamp = 1700000000000,
          entry_student = js ''Kofi'', entry_mastery = Some True\<rparr>] amaDevice"
proof -
  let ?s = "storeBucket (bucketKey (js ''8B'') 3)
       [\<lparr>entry_text = js ''Hello, it's great!'', entry_timestamp = 1699999999999,
         entry_student = js ''Ama'', entry_mastery = None\<rparr>] amaDevice"
  have g: "getGroupId ?s = Some (js ''8B'')"
    by (simp add: getGroupId_storeBucket amaDevice_group)
  have n: "\<not> list_ex (\<lambda>r. entry_student r = js ''Kofi'' \<and> entry_text r = js ''Hello, it's great!'')
             (loadBucket ?s (bucketKey (js ''8B'') 3))"
    by (simp add: loadBucket_storeBucket js_def)
  have "importPeerInsight kofiPayload 3 ?s =
     (\<lparr>success = True, message = js ''Peer insight added successfully!''\<rparr>,
      storeBucket (bucketKey (js ''8B'') 3)
       (loadBucket ?s (bucketKey (js ''8B'') 3) @
        [\<lparr>entry_text = js ''Hello, it's great!'', entry_timestamp = 1700000000000,
          entry_student = js ''Kofi'', entry_mastery = Some (js ''M'' = js ''M'')\<rparr>]) ?s)"
    using kofi_fields kofi_lesson kofi_timestamp g kofi_text kofi_text_trim n
    by (rule importPeerInsight_accept)
  then show ?thesis
    by (simp add: classDevice_def run_def amaDevice_saved loadBucket_storeBucket storeBucket_twice)
qed

lemma wrongGroupAndLesson_fields:
  "split 0x7C wrongGroupAndLesson =
     [js ''8C'', js ''4'', js ''1700000000000'', js ''Hi'', js ''Kofi'', js ''M'']"
  by (simp add: wrongGroupAndLesson_def js_def)

lemma wrongGroupAndLesson_refused:
  "\<not> success (fst (importPeerInsight wrongGroupAndLesson 3 amaDevice))"
  unfolding importPeerInsight_def wrongGroupAndLesson_fields
  by (simp add: Let_def amaDevice_group string_eval number_eval)

section \<open>Keys\<close>

text \<open>
  No bucket key is the key of a string slot, which is why the two kinds of
  slot can be kept in two maps.
\<close>

lemma bucketKey_not_string_key:
  "bucketKey g L \<noteq> GROUP_KEY \<and> bucketKey g L \<noteq> STUDENT_NAME_KEY \<and> bucketKey g L \<noteq> draftKey L'"
  by (simp add: bucketKey_def REFLECTIONS_KEY_PREFIX_def GROUP_KEY_def STUDENT_NAME_KEY_def
      draftKey_def js_def)

section \<open>The group slot along a run\<close>

lemma student_key_not_group_key: "STUDENT_NAME_KEY \<noteq> GROUP_KEY"
  by (simp add: STUDENT_NAME_KEY_def GROUP_KEY_def js_def)

lemma draft_key_not_group_key: "draftKey L \<noteq> GROUP_KEY"
  by (simp add: draftKey_def GROUP_KEY_def js_def)

lemma draft_key_not_student_key: "draftKey L \<noteq> STUDENT_NAME_KEY"
  by (simp add: draftKey_def STUDENT_NAME_KEY_def js_def)

lemma saveReflectionToGroup_items: "items (saveReflectionToGroup L t now s) = items s"
  by (simp add: saveReflectionToGroup_def Let_def storeBucket_def split: option.splits)

lemma setGroupId_valid: "groupIdValid s \<Longrightarrow> groupIdValid (setGroupId name s)"
  by (cases name) (simp_all add: setGroupId_def groupIdValid_def getGroupId_def trim_idem)

lemma step_valid: "groupIdValid s \<Longrightarrow> groupIdValid (step op s)"
proof (cases op)
  case (SetGroupId name)
  then show "groupIdValid s \<Longrightarrow> groupIdValid (step op s)"
    by (simp add: setGroupId_valid)
next
  case (SaveReflectionToGroup L t now)
  then show "groupIdValid s \<Longrightarrow> groupIdValid (step op s)"
    by (simp add: groupIdValid_def getGroupId_def saveReflectionToGroup_items)
next
  case (ImportPeerInsight p L)
  then show "groupIdValid s \<Longrightarrow> groupIdValid (step op s)"
    by (simp add: groupIdValid_def getGroupId_def importPeerInsight_items)
next
  case (SetStudentName n)
  then show "groupIdValid s \<Longrightarrow> groupIdValid (step op s)"
    using student_key_not_group_key by (simp add: groupIdValid_def getGroupId_def)
next
  case (SaveDraft L t)
  then show "groupIdValid s \<Longrightarrow> groupIdValid (step op s)"
    using draft_key_not_group_key [of L] by (simp add: groupIdValid_def getGroupId_def)
qed

lemma run_snoc: "run (ops @ [op]) s = step op (run ops s)"
  by (simp add: run_def)

lemma run_valid: "groupIdValid s \<Longrightarrow> groupIdValid (run ops s)"
proof (induction ops rule: rev_induct)
  case Nil
  then show ?case by (simp add: run_def)
next
  case (snoc op ops)
  then show ?case by (simp add: run_snoc step_valid)
qed

lemma emptyStorage_valid: "groupIdValid emptyStorage"
  by (simp add: groupIdValid_def getGroupId_def emptyStorage_def)

lemma loadBucket_storeBucket_other:
  "k' \<noteq> k \<Longrightarrow> loadBucket (storeBucket k es s) k' = loadBucket s k'"
  by (simp add: loadBucket_def storeBucket_def)

lemma run_group_nonempty: "getGroupId (run ops emptyStorage) = Some g \<Longrightarrow> g \<noteq> []"
  using run_valid [OF emptyStorage_valid, of ops] by (auto simp: groupIdValid_def)

section \<open>Counting the entries of a student and a text\<close>

lemma countEntries_zero:
  "countEntries n tx es = 0 \<longleftrightarrow> \<not> list_ex (\<lambda>r. entry_student r = n \<and> entry_text r = tx) es"
  by (auto simp: countEntries_def entryKey_def list_ex_iff filter_empty_conv)

lemma countEntries_append: "countEntries n tx (es @ es') = countEntries n tx es + countEntries n tx es'"
  by (simp add: countEntries_def)

lemma countEntries_one:
  "countEntries n tx [\<lparr>entry_text = tx, entry_timestamp = ts, entry_student = n, entry_mastery = m\<rparr>] = 1"
  by (simp add: countEntries_def entryKey_def)

section \<open>No bucket gains a duplicate\<close>

lemma distinct_snoc_entry:
  assumes "distinct (map entryKey es)"
    and "\<not> list_ex (\<lambda>r. entry_student r = n \<and> entry_text r = tx) es"
    and "entryKey e = (n, tx)"
  shows "distinct (map entryKey (es @ [e]))"
  using assms by (auto simp: list_ex_iff entryKey_def)

lemma countEntries_distinct: "distinct (map entryKey es) \<Longrightarrow> countEntries n tx es \<le> 1"
proof (induction es)
  case Nil
  then show ?case by (simp add: countEntries_def)
next
  case (Cons e es)
  show ?case
  proof (cases "entryKey e = (n, tx)")
    case True
    from Cons.prems have "entryKey e \<notin> entryKey ` set es"
      by simp
    with True have "\<forall>x \<in> set es. entryKey x \<noteq> (n, tx)"
      by force
    then have "filter (\<lambda>x. entryKey x = (n, tx)) es = []"
      by (simp add: filter_empty_conv)
    with True show ?thesis by (simp add: countEntries_def)
  next
    case False
    with Cons show ?thesis by (simp add: countEntries_def)
  qed
qed

lemma saveReflectionToGroup_cases:
  assumes "getGroupId s = Some g" and "g \<noteq> []" and "trim t \<noteq> []"
  shows "saveReflectionToGroup L t now s =
           (if list_ex (\<lambda>r. entry_student r = authorName s \<and> entry_text r = trim t)
                 (loadBucket s (bucketKey g L))
            then s
            else storeBucket (bucketKey g L)
                   (loadBucket s (bucketKey g L) @
                      [\<lparr>entry_text = trim t, entry_timestamp = now,
                        entry_student = authorName s, entry_mastery = None\<rparr>]) s)"
  using assms by (simp add: saveReflectionToGroup_def authorName_def Let_def)

lemma saveReflectionToGroup_noop:
  "getGroupId s = None \<or> getGroupId s = Some [] \<or> trim t = [] \<Longrightarrow>
     saveReflectionToGroup L t now s = s"
  by (auto simp: saveReflectionToGroup_def Let_def split: option.splits)

lemma saveReflectionToGroup_distinct:
  assumes "distinct (map entryKey (loadBucket s k))"
  shows "distinct (map entryKey (loadBucket (saveReflectionToGroup L t now s) k))"
proof (cases "getGroupId s = None \<or> getGroupId s = Some [] \<or> trim t = []")
  case True
  then show ?thesis
    using assms by (simp add: saveReflectionToGroup_noop)
next
  case False
  then obtain g where g: "getGroupId s = Some g" "g \<noteq> []" and t: "trim t \<noteq> []"
    by auto
  show ?thesis
  proof (cases "list_ex (\<lambda>r. entry_student r = authorName s \<and> entry_text r = trim t)
                 (loadBucket s (bucketKey g L))")
    case True
    then show ?thesis
      using assms by (simp add: saveReflectionToGroup_cases [OF g t])
  next
    case new: False
    show ?thesis
    proof (cases "k = bucketKey g L")
      case True
      from assms new have "distinct (map entryKey (loadBucket s (bucketKey g L) @
                      [\<lparr>entry_text = trim t, entry_timestamp = now,
                        entry_student = authorName s, entry_mastery = None\<rparr>]))"
        unfolding True by (rule distinct_snoc_entry) (simp add: entryKey_def)
      with new True show ?thesis
        by (simp only: saveReflectionToGroup_cases [OF g t] loadBucket_storeBucket if_False)
    next
      case False
      with new assms show ?thesis
        by (simp add: saveReflectionToGroup_cases [OF g t] loadBucket_storeBucket_other)
    qed
  qed
qed

lemma importPeerInsight_distinct:
  assumes "distinct (map entryKey (loadBucket s k))"
  shows "distinct (map entryKey (loadBucket (snd (importPeerInsight p L s)) k))"
proof (cases "success (fst (importPeerInsight p L s))")
  case False
  then show ?thesis
    using assms by (simp add: importPeerInsight_failure)
next
  case True
  then obtain g n m tx ts where
    new: "\<not> list_ex (\<lambda>r. entry_student r = n \<and> entry_text r = tx) (loadBucket s (bucketKey g L))"
    and i: "importPeerInsight p L s =
       (\<lparr>success = True, message = js ''Peer insight added successfully!''\<rparr>,
        storeBucket (bucketKey g L)
          (loadBucket s (bucketKey g L) @
             [\<lparr>entry_text = tx, entry_timestamp = ts, entry_student = n,
               entry_mastery = Some (m = js ''M'')\<rparr>]) s)"
    by (rule importPeerInsight_success) blast
  show ?thesis
  proof (cases "k = bucketKey g L")
    case True
    from assms new have "distinct (map entryKey (loadBucket s (bucketKey g L) @
             [\<lparr>entry_text = tx, entry_timestamp = ts, entry_student = n,
               entry_mastery = Some (m = js ''M'')\<rparr>]))"
      unfolding True by (rule distinct_snoc_entry) (simp add: entryKey_def)
    with True show ?thesis
      by (simp only: i snd_conv loadBucket_storeBucket)
  next
    case False
    with assms show ?thesis
      by (simp add: i loadBucket_storeBucket_other)
  qed
qed

lemma step_distinct:
  "distinct (map entryKey (loadBucket s k)) \<Longrightarrow> distinct (map entryKey (loadBucket (step op s) k))"
proof (cases op)
  case (SetGroupId name)
  then show "distinct (map entryKey (loadBucket s k)) \<Longrightarrow>
      distinct (map entryKey (loadBucket (step op s) k))"
    by (cases name) (simp_all add: setGroupId_def loadBucket_def)
next
  case (SaveReflectionToGroup L t now)
  then show "distinct (map entryKey (loadBucket s k)) \<Longrightarrow>
      distinct (map entryKey (loadBucket (step op s) k))"
    by (simp add: saveReflectionToGroup_distinct)
next
  case (ImportPeerInsight p L)
  then show "distinct (map entryKey (loadBucket s k)) \<Longrightarrow>
      distinct (map entryKey (loadBucket (step op s) k))"
    by (simp add: importPeerInsight_distinct)
next
  case (SetStudentName n)
  then show "distinct (map entryKey (loadBucket s k)) \<Longrightarrow>
      distinct (map entryKey (loadBucket (step op s) k))"
    by (simp add: loadBucket_def)
next
  case (SaveDraft L t)
  then show "distinct (map entryKey (loadBucket s k)) \<Longrightarrow>
      distinct (map entryKey (loadBucket (step op s) k))"
    by (simp add: loadBucket_def)
qed

lemma run_distinct:
  "distinct (map entryKey (loadBucket s k)) \<Longrightarrow> distinct (map entryKey (loadBucket (run ops s) k))"
proof (induction ops rule: rev_induct)
  case Nil
  then show ?case by (simp add: run_def)
next
  case (snoc op ops)
  then show ?case by (simp add: run_snoc step_distinct)
qed

lemma authorName_saveReflectionToGroup:
  "authorName (saveReflectionToGroup L t now s) = authorName s"
  by (simp add: authorName_def saveReflectionToGroup_items)

lemma getGroupId_saveReflectionToGroup:
  "getGroupId (saveReflectionToGroup L t now s) = getGroupId s"
  by (simp add: getGroupId_def saveReflectionToGroup_items)

lemma saveReflectionToGroup_count:
  assumes "getGroupId s = Some g" and "g \<noteq> []" and "trim t \<noteq> []"
    and "distinct (map entryKey (loadBucket s (bucketKey g L)))"
  shows "countEntries (authorName s) (trim t)
           (loadBucket (saveReflectionToGroup L t now s) (bucketKey g L)) = 1"
proof (cases "list_ex (\<lambda>r. entry_student r = authorName s \<and> entry_text r = trim t)
                 (loadBucket s (bucketKey g L))")
  case True
  then have "countEntries (authorName s) (trim t) (loadBucket s (bucketKey g L)) \<noteq> 0"
    by (simp add: countEntries_zero)
  moreover have "countEntries (authorName s) (trim t) (loadBucket s (bucketKey g L)) \<le> 1"
    using assms(4) by (rule countEntries_distinct)
  ultimately have "countEntries (authorName s) (trim t) (loadBucket s (bucketKey g L)) = 1"
    by linarith
  with True show ?thesis
    by (simp add: saveReflectionToGroup_cases [OF assms(1-3)])
next
  case False
  then have "countEntries (authorName s) (trim t) (loadBucket s (bucketKey g L)) = 0"
    by (simp add: countEntries_zero)
  with False show ?thesis
    by (simp add: saveReflectionToGroup_cases [OF assms(1-3)] loadBucket_storeBucket
        countEntries_append countEntries_one)
qed

section \<open>Building and splitting a payload\<close>

lemma isUnescaped_not_surrogate:
  "isUnescaped c \<Longrightarrow> \<not> isLeadingSurrogate c \<and> \<not> isTrailingSurrogate c"
  by (auto simp: isUnescaped_def isLeadingSurrogate_def isTrailingSurrogate_def word_le_nat_alt)

lemma encodeURIComponent_wellFormed:
  "isWellFormed s \<Longrightarrow> \<exists>e. encodeURIComponent s = Some e"
proof (induction s rule: isWellFormed.induct)
  case 1
  then show ?case by simp
next
  case (2 c cs)
  show ?case
  proof (cases "isLeadingSurrogate c")
    case True
    with 2(3) obtain d ds where cs: "cs = d # ds" and d: "isTrailingSurrogate d"
      and w: "isWellFormed ds"
      by (auto split: list.splits)
    from 2(1) [OF True cs w] True cs d show ?thesis
      using isUnescaped_not_surrogate [of c] by auto
  next
    case False
    with 2(3) have nt: "\<not> isTrailingSurrogate c" and w: "isWellFormed cs"
      by (auto split: if_splits)
    from 2(2) [OF False nt w] False nt show ?thesis
      by auto
  qed
qed

lemma numberToString_not_bar: "0x7C \<notin> set (numberToString i)"
  using numberToString_chars [of "0x7C" i] by (auto simp: isDigit_def)

lemma split_payload:
  assumes "0x7C \<notin> set a" "0x7C \<notin> set b" "0x7C \<notin> set c" "0x7C \<notin> set d" "0x7C \<notin> set e"
    "0x7C \<notin> set f"
  shows "split 0x7C (a @ js ''|'' @ b @ js ''|'' @ c @ js ''|'' @ d @ js ''|'' @ e @ js ''|'' @ f) =
           [a, b, c, d, e, f]"
proof -
  have bar: "js ''|'' = [0x7C]" by (simp add: js_def)
  show ?thesis
    unfolding bar using assms by (simp add: split_append split_no_sep)
qed

lemma masteryFlag_M: "((if m then js ''M'' else js ''N'') = js ''M'') = m"
  by (simp add: js_def)

lemma masteryFlag_not_bar: "0x7C \<notin> set (if m then js ''M'' else js ''N'')"
  by (simp add: js_def)

section \<open>The example exports, evaluated\<close>

lemmas device_eval = run_def setGroupId_def emptyStorage_def getGroupId_def
  GROUP_KEY_def STUDENT_NAME_KEY_def draftKey_def string_eval number_eval

lemma kofiDevice_group: "getGroupId kofiDevice = Some (js ''8B'')"
  by (simp add: kofiDevice_def device_eval)

lemma kofiDevice_buckets: "buckets kofiDevice = Map.empty"
  by (simp add: kofiDevice_def device_eval)

lemma amaDevice_draft: "items amaDevice (draftKey 3) = Some (js ''Hello, it's great!  '')"
  by (simp add: amaDevice_items GROUP_KEY_def STUDENT_NAME_KEY_def draftKey_def js_def number_eval)

lemma ama_trim: "trim (js ''Hello, it's great!  '') = js ''Hello, it's great!''"
  by (simp add: string_eval)

lemma ama_wellFormed: "isWellFormed (js ''Hello, it's great!'')"
  by (simp add: js_def isLeadingSurrogate_def isTrailingSurrogate_def)

lemma ama_export:
  "exportInsightPayload 3 True 1700000000000 amaDevice = Inr (Some amaPayload)"
  unfolding exportInsightPayload_def
  by (simp add: Let_def amaDevice_group amaDevice_name amaDevice_draft ama_trim falsy_def)
    (simp add: amaPayload_def js_def uri_eval number_eval)

lemma barGroup_export:
  "exportInsightPayload 3 True 1700000000000 barGroupDevice =
     Inr (Some (js ''8|B|3|1700000000000|Hi|Ama|M''))"
  unfolding exportInsightPayload_def
  by (simp add: Let_def barGroupDevice_def device_eval falsy_def uri_eval)

lemma barGroup_import:
  "importPeerInsight (js ''8|B|3|1700000000000|Hi|Ama|M'') 3 barGroupDevice =
     (\<lparr>success = False, message = js ''Invalid timestamp or chapter.''\<rparr>, barGroupDevice)"
proof -
  have f: "split 0x7C (js ''8|B|3|1700000000000|Hi|Ama|M'') =
     [js ''8'', js ''B'', js ''3'', js ''1700000000000'', js ''Hi'', js ''Ama'', js ''M'']"
    by (simp add: js_def)
  have "parseInt (js ''B'') = None"
    by (simp add: string_eval number_eval)
  then show ?thesis
    unfolding importPeerInsight_def f by simp
qed

lemma barName_export:
  "exportInsightPayload 3 False 1700000000000 barNameDevice =
     Inr (Some (js ''8B|3|1700000000000|Hi|Ama|M|N''))"
  unfolding exportInsightPayload_def
  by (simp add: Let_def barNameDevice_def device_eval falsy_def uri_eval)

lemma barName_import:
  "importPeerInsight (js ''8B|3|1700000000000|Hi|Ama|M|N'') 3 kofiDevice =
     (\<lparr>success = True, message = js ''Peer insight added successfully!''\<rparr>,
      storeBucket (bucketKey (js ''8B'') 3)
        [\<lparr>entry_text = js ''Hi'', entry_timestamp = 1700000000000,
          entry_student = js ''Ama'', entry_mastery = Some True\<rparr>] kofiDevice)"
proof -
  have f: "split 0x7C (js ''8B|3|1700000000000|Hi|Ama|M|N'') =
     [js ''8B'', js ''3'', js ''1700000000000'', js ''Hi'', js ''Ama'', js ''M'', js ''N'']"
    by (simp add: js_def)
  have d: "decodeURIComponent (js ''Hi'') = Some (js ''Hi'')" by (simp add: js_def)
  have t: "trim (js ''Hi'') \<noteq> []" by (simp add: string_eval)
  have n: "\<not> list_ex (\<lambda>r. entry_student r = js ''Ama'' \<and> entry_text r = js ''Hi'')
             (loadBucket kofiDevice (bucketKey (js ''8B'') 3))"
    by (simp add: loadBucket_def kofiDevice_buckets)
  from importPeerInsight_accept [OF f kofi_lesson kofi_timestamp kofiDevice_group d t n]
  show ?thesis
    by (simp add: loadBucket_def kofiDevice_buckets)
qed

lemma emptyName_export:
  "exportInsightPayload 3 True 1700000000000 emptyNameDevice = Inr None"
  unfolding exportInsightPayload_def
  by (simp add: Let_def emptyNameDevice_def device_eval falsy_def)

lemma surrogate_export:
  "exportInsightPayload 3 True 1700000000000 surrogateDevice = Inl URIError"
  unfolding exportInsightPayload_def
  by (simp add: Let_def surrogateDevice_def device_eval falsy_def uri_eval)

section \<open>Round trip of an insight\<close>

text \<open>
  Claim C1, as amended.  Let the exporting device have active group \<open>g\<close>,
  stored display name \<open>n\<close> and draft \<open>t\<close> for lesson \<open>L\<close>, where the
  trim of \<open>t\<close> is non-empty and has no unpaired surrogate, and \<open>g\<close> and
  \<open>n\<close> are non-empty and contain no \<open>|\<close>.  Then
  \<open>exportInsightPayload(L, m)\<close> returns a string, and importing that string for
  lesson \<open>L\<close> on a device whose active group is \<open>g\<close> and whose bucket of
  \<open>(g, L)\<close> holds no entry with student \<open>n\<close> and text the trim of \<open>t\<close>
  succeeds and appends to that bucket one entry with that text, that student,
  the exporter's timestamp and mastery \<open>m\<close>.
\<close>

theorem export_import_roundtrip:
  assumes "getGroupId s = Some g" and "items s STUDENT_NAME_KEY = Some n"
    and "items s (draftKey L) = Some t"
    and "trim t \<noteq> []" and "isWellFormed (trim t)"
    and "g \<noteq> []" and "n \<noteq> []" and "0x7C \<notin> set g" and "0x7C \<notin> set n"
    and "getGroupId s' = Some g"
    and "\<not> list_ex (\<lambda>r. entry_student r = n \<and> entry_text r = trim t) (loadBucket s' (bucketKey g L))"
  shows "\<exists>p. exportInsightPayload L m now s = Inr (Some p) \<and>
             importPeerInsight p L s' =
               (\<lparr>success = True, message = js ''Peer insight added successfully!''\<rparr>,
                storeBucket (bucketKey g L)
                  (loadBucket s' (bucketKey g L) @
                     [\<lparr>entry_text = trim t, entry_timestamp = now, entry_student = n,
                       entry_mastery = Some m\<rparr>]) s')"
proof -
  from assms(5) obtain enc where enc: "encodeURIComponent (trim t) = Some enc"
    using encodeURIComponent_wellFormed by blast
  define flag where "flag = (if m then js ''M'' else js ''N'')"
  define p where "p = g @ js ''|'' @ numberToString L @ js ''|'' @ numberToString now @ js ''|'' @
                      enc @ js ''|'' @ n @ js ''|'' @ flag"
  from assms(4) have "t \<noteq> []"
    by (auto simp: trim_def trimStart_def trimEnd_def)
  with assms(1-3,6,7) enc have ex: "exportInsightPayload L m now s = Inr (Some p)"
    by (simp add: exportInsightPayload_def falsy_def p_def flag_def)
  have f: "split 0x7C p = [g, numberToString L, numberToString now, enc, n, flag]"
    unfolding p_def
    using assms(8) numberToString_not_bar numberToString_not_bar
      encodeURIComponent_not_bar [OF enc] assms(9)
  proof (rule split_payload)
    show "0x7C \<notin> set flag" unfolding flag_def by (rule masteryFlag_not_bar)
  qed
  from assms(4) have tt: "trim (trim t) \<noteq> []"
    by (simp add: trim_idem)
  have "importPeerInsight p L s' =
               (\<lparr>success = True, message = js ''Peer insight added successfully!''\<rparr>,
                storeBucket (bucketKey g L)
                  (loadBucket s' (bucketKey g L) @
                     [\<lparr>entry_text = trim t, entry_timestamp = now, entry_student = n,
                       entry_mastery = Some (flag = js ''M'')\<rparr>]) s')"
    using f parseInt_numberToString parseInt_numberToString assms(10) decode_encode [OF enc]
      tt assms(11)
    by (rule importPeerInsight_accept)
  with ex show ?thesis
    by (simp add: flag_def masteryFlag_M)
qed

theorem export_import_roundtrip_witness:
  "getGroupId amaDevice = Some (js ''8B'') \<and>
   items amaDevice STUDENT_NAME_KEY = Some (js ''Ama'') \<and>
   items amaDevice (draftKey 3) = Some (js ''Hello, it's great!  '') \<and>
   trim (js ''Hello, it's great!  '') = js ''Hello, it's great!'' \<and>
   isWellFormed (js ''Hello, it's great!'') \<and>
   0x7C \<notin> set (js ''8B'') \<and> 0x7C \<notin> set (js ''Ama'') \<and>
   getGroupId kofiDevice = Some (js ''8B'') \<and>
   loadBucket kofiDevice (bucketKey (js ''8B'') 3) = [] \<and>
   exportInsightPayload 3 True 1700000000000 amaDevice = Inr (Some amaPayload) \<and>
   importPeerInsight amaPayload 3 kofiDevice =
     (\<lparr>success = True, message = js ''Peer insight added successfully!''\<rparr>,
      storeBucket (bucketKey (js ''8B'') 3)
        [\<lparr>entry_text = js ''Hello, it's great!'', entry_timestamp = 1700000000000,
          entry_student = js ''Ama'', entry_mastery = Some True\<rparr>] kofiDevice)"
proof -
  have b: "loadBucket kofiDevice (bucketKey (js ''8B'') 3) = []"
    by (simp add: loadBucket_def kofiDevice_buckets)
  have h: "trim (js ''Hello, it's great!  '') \<noteq> []" "isWellFormed (trim (js ''Hello, it's great!  ''))"
    "js ''8B'' \<noteq> []" "js ''Ama'' \<noteq> []" "0x7C \<notin> set (js ''8B'')" "0x7C \<notin> set (js ''Ama'')"
    by (simp_all add: ama_trim ama_wellFormed) (simp_all add: js_def)
  have n: "\<not> list_ex (\<lambda>r. entry_student r = js ''Ama'' \<and>
              entry_text r = trim (js ''Hello, it's great!  ''))
             (loadBucket kofiDevice (bucketKey (js ''8B'') 3))"
    by (simp add: b)
  from export_import_roundtrip [OF amaDevice_group amaDevice_name amaDevice_draft h
      kofiDevice_group n, of True 1700000000000]
  have "importPeerInsight amaPayload 3 kofiDevice =
     (\<lparr>success = True, message = js ''Peer insight added successfully!''\<rparr>,
      storeBucket (bucketKey (js ''8B'') 3)
        [\<lparr>entry_text = js ''Hello, it's great!'', entry_timestamp = 1700000000000,
          entry_student = js ''Ama'', entry_mastery = Some True\<rparr>] kofiDevice)"
    by (simp add: ama_export b ama_trim)
  with amaDevice_group amaDevice_name amaDevice_draft ama_trim ama_wellFormed h(5,6)
    kofiDevice_group b ama_export
  show ?thesis by simp
qed

text \<open>
  The claim as first stated, for every group and every display name, fails: a
  group name \<open>8|B\<close> is split in two by the importer, which then refuses the
  payload at the numeric check; a display name \<open>Ama|M\<close> exported without
  mastery is imported as student \<open>Ama\<close> with mastery; with an empty display
  name the export returns null; and a draft that is a lone surrogate makes
  \<open>encodeURIComponent\<close> throw.
\<close>

theorem export_import_roundtrip_counterexample:
  "getGroupId barGroupDevice = Some (js ''8|B'') \<and>
   items barGroupDevice STUDENT_NAME_KEY = Some (js ''Ama'') \<and>
   items barGroupDevice (draftKey 3) = Some (js ''Hi'') \<and>
   trim (js ''Hi'') = js ''Hi'' \<and>
   exportInsightPayload 3 True 1700000000000 barGroupDevice =
     Inr (Some (js ''8|B|3|1700000000000|Hi|Ama|M'')) \<and>
   importPeerInsight (js ''8|B|3|1700000000000|Hi|Ama|M'') 3 barGroupDevice =
     (\<lparr>success = False, message = js ''Invalid timestamp or chapter.''\<rparr>, barGroupDevice) \<and>
   items barNameDevice STUDENT_NAME_KEY = Some (js ''Ama|M'') \<and>
   exportInsightPayload 3 False 1700000000000 barNameDevice =
     Inr (Some (js ''8B|3|1700000000000|Hi|Ama|M|N'')) \<and>
   importPeerInsight (js ''8B|3|1700000000000|Hi|Ama|M|N'') 3 kofiDevice =
     (\<lparr>success = True, message = js ''Peer insight added successfully!''\<rparr>,
      storeBucket (bucketKey (js ''8B'') 3)
        [\<lparr>entry_text = js ''Hi'', entry_timestamp = 1700000000000,
          entry_student = js ''Ama'', entry_mastery = Some True\<rparr>] kofiDevice) \<and>
   items emptyNameDevice STUDENT_NAME_KEY = Some [] \<and>
   exportInsightPayload 3 True 1700000000000 emptyNameDevice = Inr None \<and>
   items surrogateDevice (draftKey 3) = Some [0xD83D] \<and>
   trim [0xD83D] = [0xD83D] \<and>
   exportInsightPayload 3 True 1700000000000 surrogateDevice = Inl URIError"
proof -
  have "getGroupId barGroupDevice = Some (js ''8|B'')"
    "items barGroupDevice STUDENT_NAME_KEY = Some (js ''Ama'')"
    "items barGroupDevice (draftKey 3) = Some (js ''Hi'')"
    by (simp_all add: barGroupDevice_def device_eval)
  moreover have "trim (js ''Hi'') = js ''Hi''" "trim [0xD83D] = [0xD83D]"
    by (simp_all add: string_eval)
  moreover have "items barNameDevice STUDENT_NAME_KEY = Some (js ''Ama|M'')"
    by (simp add: barNameDevice_def device_eval)
  moreover have "items emptyNameDevice STUDENT_NAME_KEY = Some []"
    by (simp add: emptyNameDevice_def device_eval)
  moreover have "items surrogateDevice (draftKey 3) = Some [0xD83D]"
    by (simp add: surrogateDevice_def device_eval)
  ultimately show ?thesis
    using barGroup_export barGroup_import barName_export barName_import emptyName_export
      surrogate_export
    by simp
qed

section \<open>What an import changes\<close>

text \<open>
  Claim C2.  An import that returns \<open>success = false\<close> returns the storage it
  was given.  An import that returns \<open>success = true\<close> has appended exactly one
  entry to the bucket of the importer's current group and the lesson being
  imported: the string slots are unchanged, every other bucket key is
  unchanged, and so is the bucket of every other (group, lesson) pair.
\<close>

theorem import_effect:
  assumes "importPeerInsight p L s = (res, s')"
  shows "(\<not> success res \<longrightarrow> s' = s) \<and>
         (success res \<longrightarrow>
            (\<exists>g e. getGroupId s = Some g \<and>
               s' = storeBucket (bucketKey g L) (loadBucket s (bucketKey g L) @ [e]) s \<and>
               items s' = items s \<and>
               loadBucket s' (bucketKey g L) = loadBucket s (bucketKey g L) @ [e] \<and>
               (\<forall>k. k \<noteq> bucketKey g L \<longrightarrow> buckets s' k = buckets s k) \<and>
               (\<forall>g' L'. (g', L') \<noteq> (g, L) \<longrightarrow>
                  loadBucket s' (bucketKey g' L') = loadBucket s (bucketKey g' L'))))"
proof (intro conjI impI)
  assume "\<not> success res"
  with assms show "s' = s"
    using importPeerInsight_failure [of p L s] by simp
next
  assume "success res"
  with assms have "success (fst (importPeerInsight p L s))" by simp
  then obtain g e where g: "getGroupId s = Some g"
    and i: "importPeerInsight p L s =
       (\<lparr>success = True, message = js ''Peer insight added successfully!''\<rparr>,
        storeBucket (bucketKey g L) (loadBucket s (bucketKey g L) @ [e]) s)"
    by (rule importPeerInsight_success) blast
  from i assms have s': "s' = storeBucket (bucketKey g L) (loadBucket s (bucketKey g L) @ [e]) s"
    by simp
  have "\<forall>g' L'. (g', L') \<noteq> (g, L) \<longrightarrow>
          loadBucket s' (bucketKey g' L') = loadBucket s (bucketKey g' L')"
    by (simp add: s' storeBucket_def loadBucket_def bucketKey_inject)
  with g s' show "\<exists>g e. getGroupId s = Some g \<and>
               s' = storeBucket (bucketKey g L) (loadBucket s (bucketKey g L) @ [e]) s \<and>
               items s' = items s \<and>
               loadBucket s' (bucketKey g L) = loadBucket s (bucketKey g L) @ [e] \<and>
               (\<forall>k. k \<noteq> bucketKey g L \<longrightarrow> buckets s' k = buckets s k) \<and>
               (\<forall>g' L'. (g', L') \<noteq> (g, L) \<longrightarrow>
                  loadBucket s' (bucketKey g' L') = loadBucket s (bucketKey g' L'))"
    by (intro exI [of _ g] exI [of _ e]) (simp add: storeBucket_def loadBucket_def)
qed

theorem import_effect_witness:
  "success (fst (importPeerInsight kofiPayload 3 amaDevice)) \<and>
   (\<exists>g e. getGroupId amaDevice = Some g \<and>
      snd (importPeerInsight kofiPayload 3 amaDevice) =
        storeBucket (bucketKey g 3) (loadBucket amaDevice (bucketKey g 3) @ [e]) amaDevice) \<and>
   \<not> success (fst (importPeerInsight wrongGroupAndLesson 3 amaDevice)) \<and>
   snd (importPeerInsight wrongGroupAndLesson 3 amaDevice) = amaDevice"
proof -
  have ok: "success (fst (importPeerInsight kofiPayload 3 amaDevice))"
    by (simp add: kofi_import)
  have e1: "importPeerInsight kofiPayload 3 amaDevice =
      (fst (importPeerInsight kofiPayload 3 amaDevice), snd (importPeerInsight kofiPayload 3 amaDevice))"
    by simp
  have e2: "importPeerInsight wrongGroupAndLesson 3 amaDevice =
      (fst (importPeerInsight wrongGroupAndLesson 3 amaDevice),
       snd (importPeerInsight wrongGroupAndLesson 3 amaDevice))"
    by simp
  from import_effect [OF e1] import_effect [OF e2] ok wrongGroupAndLesson_refused
  show ?thesis by blast
qed

section \<open>Order of the gates\<close>

text \<open>
  Claim C3.  A payload with at least six fields whose lesson and timestamp
  fields parse, whose group field differs from the importer's active group and
  whose lesson differs from the lesson being imported, is refused with the
  group-mismatch message, which names both groups and is never the
  lesson-mismatch message; the storage is unchanged.
\<close>

theorem group_gate_before_lesson_gate:
  assumes "6 \<le> length (split 0x7C p)"
    and "parseInt (split 0x7C p ! 1) = Some chapter"
    and "parseInt (split 0x7C p ! 2) = Some timestamp"
    and "Some (split 0x7C p ! 0) \<noteq> getGroupId s"
    and "chapter \<noteq> L"
  shows "importPeerInsight p L s =
           (\<lparr>success = False,
             message = groupMismatch (split 0x7C p ! 0) (getGroupId s)\<rparr>, s) \<and>
         message (fst (importPeerInsight p L s)) \<noteq> lessonMismatch chapter L"
proof -
  from assms(1) obtain g c t e n m r where f: "split 0x7C p = g # c # t # e # n # m # r"
    and g: "split 0x7C p ! 0 = g" and c: "split 0x7C p ! 1 = c" and t: "split 0x7C p ! 2 = t"
    by (rule fieldsE)
  from assms(2-4) [unfolded g c t]
  have "importPeerInsight p L s =
          (\<lparr>success = False, message = groupMismatch g (getGroupId s)\<rparr>, s)"
    unfolding importPeerInsight_def f by (simp add: Let_def)
  then show ?thesis
    by (simp add: groupMismatch_not_lessonMismatch g)
qed

theorem group_gate_before_lesson_gate_witness:
  \<open>6 \<le> length (split 0x7C wrongGroupAndLesson) \<and>
   parseInt (split 0x7C wrongGroupAndLesson ! 1) = Some 4 \<and>
   parseInt (split 0x7C wrongGroupAndLesson ! 2) = Some 1700000000000 \<and>
   Some (split 0x7C wrongGroupAndLesson ! 0) \<noteq> getGroupId amaDevice \<and>
   (4 :: int) \<noteq> 3 \<and>
   importPeerInsight wrongGroupAndLesson 3 amaDevice =
     (\<lparr>success = False,
       message = js ''Insight is for group "8C", but you're in "8B".''\<rparr>, amaDevice)\<close>
proof -
  have h1: "6 \<le> length (split 0x7C wrongGroupAndLesson)"
    by (simp add: wrongGroupAndLesson_fields)
  have h2: "parseInt (split 0x7C wrongGroupAndLesson ! 1) = Some 4"
    by (simp add: wrongGroupAndLesson_fields string_eval number_eval)
  have h3: "parseInt (split 0x7C wrongGroupAndLesson ! 2) = Some 1700000000000"
    by (simp add: wrongGroupAndLesson_fields string_eval number_eval)
  have h4: "Some (split 0x7C wrongGroupAndLesson ! 0) \<noteq> getGroupId amaDevice"
    by (simp add: wrongGroupAndLesson_fields amaDevice_group js_def)
  have h5: "(4 :: int) \<noteq> 3" by simp
  have m: \<open>groupMismatch (split 0x7C wrongGroupAndLesson ! 0) (getGroupId amaDevice) =
             js ''Insight is for group "8C", but you're in "8B".''\<close>
    by (simp add: wrongGroupAndLesson_fields amaDevice_group groupMismatch_def js_def)
  from group_gate_before_lesson_gate [OF h1 h2 h3 h4 h5] h1 h2 h3 h4 h5 m
  show ?thesis by simp
qed

section \<open>Importing the same payload twice\<close>

text \<open>
  Claim C4, as amended.  Let \<open>p\<close> be a valid payload for the importer and the
  lesson \<open>L\<close> (at least six fields, lesson and timestamp numeric, the group
  field equal to the importer's group, the lesson equal to \<open>L\<close>, the text
  decoding to a string with non-empty trim), and let the bucket of the group
  and \<open>L\<close> hold no entry with the payload's student and decoded text.  Then
  importing \<open>p\<close> twice in succession returns success with "Peer insight added
  successfully!" the first time and failure with "Already imported this
  insight." the second time, the second call leaves the storage as the first
  left it, and the bucket then holds exactly one entry with that student and
  text.
\<close>

theorem import_twice:
  assumes "6 \<le> length (split 0x7C p)"
    and "parseInt (split 0x7C p ! 1) = Some L"
    and "parseInt (split 0x7C p ! 2) = Some ts"
    and "getGroupId s = Some (split 0x7C p ! 0)"
    and "decodeURIComponent (split 0x7C p ! 3) = Some tx"
    and "trim tx \<noteq> []"
    and "countEntries (split 0x7C p ! 4) tx (loadBucket s (bucketKey (split 0x7C p ! 0) L)) = 0"
  shows "fst (importPeerInsight p L s) =
           \<lparr>success = True, message = js ''Peer insight added successfully!''\<rparr> \<and>
         fst (importPeerInsight p L (snd (importPeerInsight p L s))) =
           \<lparr>success = False, message = js ''Already imported this insight.''\<rparr> \<and>
         snd (importPeerInsight p L (snd (importPeerInsight p L s))) = snd (importPeerInsight p L s) \<and>
         countEntries (split 0x7C p ! 4) tx
           (loadBucket (snd (importPeerInsight p L (snd (importPeerInsight p L s))))
              (bucketKey (split 0x7C p ! 0) L)) = 1"
proof -
  from assms(1) obtain g c t e n m r where f: "split 0x7C p = g # c # t # e # n # m # r"
    and g: "split 0x7C p ! 0 = g" and c: "split 0x7C p ! 1 = c" and t: "split 0x7C p ! 2 = t"
    and e: "split 0x7C p ! 3 = e" and n: "split 0x7C p ! 4 = n"
    by (rule fieldsE)
  note a = assms(2-7) [unfolded g c t e n]
  let ?k = "bucketKey g L"
  let ?new = "\<lparr>entry_text = tx, entry_timestamp = ts, entry_student = n,
                entry_mastery = Some (m = js ''M'')\<rparr>"
  let ?s1 = "storeBucket ?k (loadBucket s ?k @ [?new]) s"
  from a(6) have fresh: "\<not> list_ex (\<lambda>r. entry_student r = n \<and> entry_text r = tx) (loadBucket s ?k)"
    by (simp add: countEntries_zero)
  have first: "importPeerInsight p L s =
      (\<lparr>success = True, message = js ''Peer insight added successfully!''\<rparr>, ?s1)"
    using f a(1,2,3,4,5) fresh by (rule importPeerInsight_accept)
  have g1: "getGroupId ?s1 = Some g"
    by (simp add: getGroupId_storeBucket a(3))
  have there: "list_ex (\<lambda>r. entry_student r = n \<and> entry_text r = tx) (loadBucket ?s1 ?k)"
    by (simp add: loadBucket_storeBucket)
  have second: "importPeerInsight p L ?s1 =
      (\<lparr>success = False, message = js ''Already imported this insight.''\<rparr>, ?s1)"
    using f a(1,2) g1 a(4,5) there by (rule importPeerInsight_duplicate)
  have "countEntries n tx (loadBucket ?s1 ?k) = 1"
    using a(6) by (simp add: loadBucket_storeBucket countEntries_append countEntries_one)
  then show ?thesis
    unfolding g n by (simp add: first second)
qed

theorem import_twice_witness:
  "6 \<le> length (split 0x7C kofiPayload) \<and>
   parseInt (split 0x7C kofiPayload ! 1) = Some 3 \<and>
   parseInt (split 0x7C kofiPayload ! 2) = Some 1700000000000 \<and>
   getGroupId amaDevice = Some (split 0x7C kofiPayload ! 0) \<and>
   decodeURIComponent (split 0x7C kofiPayload ! 3) = Some (js ''Hello, it's great!'') \<and>
   trim (js ''Hello, it's great!'') \<noteq> [] \<and>
   countEntries (split 0x7C kofiPayload ! 4) (js ''Hello, it's great!'')
     (loadBucket amaDevice (bucketKey (split 0x7C kofiPayload ! 0) 3)) = 0 \<and>
   fst (importPeerInsight kofiPayload 3 amaDevice) =
     \<lparr>success = True, message = js ''Peer insight added successfully!''\<rparr> \<and>
   fst (importPeerInsight kofiPayload 3 (snd (importPeerInsight kofiPayload 3 amaDevice))) =
     \<lparr>success = False, message = js ''Already imported this insight.''\<rparr> \<and>
   countEntries (split 0x7C kofiPayload ! 4) (js ''Hello, it's great!'')
     (loadBucket (snd (importPeerInsight kofiPayload 3 (snd (importPeerInsight kofiPayload 3 amaDevice))))
        (bucketKey (split 0x7C kofiPayload ! 0) 3)) = 1"
proof -
  have h1: "6 \<le> length (split 0x7C kofiPayload)"
    and h2: "parseInt (split 0x7C kofiPayload ! 1) = Some 3"
    and h3: "parseInt (split 0x7C kofiPayload ! 2) = Some 1700000000000"
    and h4: "getGroupId amaDevice = Some (split 0x7C kofiPayload ! 0)"
    and h5: "decodeURIComponent (split 0x7C kofiPayload ! 3) = Some (js ''Hello, it's great!'')"
    by (simp_all add: kofi_fields kofi_lesson kofi_timestamp amaDevice_group kofi_text)
  have h7: "countEntries (split 0x7C kofiPayload ! 4) (js ''Hello, it's great!'')
     (loadBucket amaDevice (bucketKey (split 0x7C kofiPayload ! 0) 3)) = 0"
    by (simp add: loadBucket_def amaDevice_buckets countEntries_def)
  from import_twice [OF h1 h2 h3 h4 h5 kofi_text_trim h7] h1 h2 h3 h4 h5 kofi_text_trim h7
  show ?thesis by blast
qed

text \<open>
  Without the proviso the claim fails: on the device that already imported
  Kofi's payload the payload is still valid, and the first of two further
  imports is refused as already imported.
\<close>

theorem import_twice_counterexample:
  "6 \<le> length (split 0x7C kofiPayload) \<and>
   parseInt (split 0x7C kofiPayload ! 1) = Some 3 \<and>
   parseInt (split 0x7C kofiPayload ! 2) = Some 1700000000000 \<and>
   getGroupId classDevice = Some (split 0x7C kofiPayload ! 0) \<and>
   decodeURIComponent (split 0x7C kofiPayload ! 3) = Some (js ''Hello, it's great!'') \<and>
   trim (js ''Hello, it's great!'') \<noteq> [] \<and>
   importPeerInsight kofiPayload 3 classDevice =
     (\<lparr>success = False, message = js ''Already imported this insight.''\<rparr>, classDevice)"
proof -
  have g: "getGroupId classDevice = Some (js ''8B'')"
    by (simp add: classDevice_eq getGroupId_storeBucket amaDevice_group)
  have there: "list_ex (\<lambda>r. entry_student r = js ''Kofi'' \<and> entry_text r = js ''Hello, it's great!'')
     (loadBucket classDevice (bucketKey (js ''8B'') 3))"
    by (simp add: classDevice_eq loadBucket_storeBucket)
  from importPeerInsight_duplicate [OF kofi_fields kofi_lesson kofi_timestamp g kofi_text
      kofi_text_trim there]
  show ?thesis
    by (simp add: kofi_fields kofi_lesson kofi_timestamp g kofi_text kofi_text_trim)
qed

section \<open>Buckets hold no duplicates\<close>

text \<open>
  Claim C5, as amended.  No bucket holds two entries with the same student and
  text: this holds of the empty storage, is preserved by every
  \<open>saveReflectionToGroup\<close> and every \<open>importPeerInsight\<close>, and so holds after
  every sequence of operations.  In particular, with a group active, two
  calls of \<open>saveReflectionToGroup\<close> for the same lesson with texts that trim to
  the same non-empty string leave the bucket with exactly one entry of the
  author with that trimmed text.
\<close>

theorem bucket_no_duplicates:
  "distinct (map entryKey (loadBucket emptyStorage k)) \<and>
   (distinct (map entryKey (loadBucket s k)) \<longrightarrow>
      distinct (map entryKey (loadBucket (saveReflectionToGroup L t now s) k))) \<and>
   (distinct (map entryKey (loadBucket s k)) \<longrightarrow>
      distinct (map entryKey (loadBucket (snd (importPeerInsight p L s)) k))) \<and>
   distinct (map entryKey (loadBucket (run ops emptyStorage) k)) \<and>
   (getGroupId s = Some g \<and> g \<noteq> [] \<and> trim t1 = trim t2 \<and> trim t1 \<noteq> [] \<and>
    distinct (map entryKey (loadBucket s (bucketKey g L))) \<longrightarrow>
      countEntries (authorName s) (trim t1)
        (loadBucket (saveReflectionToGroup L t2 now2 (saveReflectionToGroup L t1 now1 s))
           (bucketKey g L)) = 1)"
proof (intro conjI impI)
  show e: "distinct (map entryKey (loadBucket emptyStorage k))"
    by (simp add: loadBucket_def emptyStorage_def)
  then show "distinct (map entryKey (loadBucket (run ops emptyStorage) k))"
    by (rule run_distinct)
next
  assume "distinct (map entryKey (loadBucket s k))"
  then show "distinct (map entryKey (loadBucket (saveReflectionToGroup L t now s) k))"
    by (rule saveReflectionToGroup_distinct)
next
  assume "distinct (map entryKey (loadBucket s k))"
  then show "distinct (map entryKey (loadBucket (snd (importPeerInsight p L s)) k))"
    by (rule importPeerInsight_distinct)
next
  assume a: "getGroupId s = Some g \<and> g \<noteq> [] \<and> trim t1 = trim t2 \<and> trim t1 \<noteq> [] \<and>
    distinct (map entryKey (loadBucket s (bucketKey g L)))"
  let ?s1 = "saveReflectionToGroup L t1 now1 s"
  from a have g1: "getGroupId ?s1 = Some g"
    by (simp add: getGroupId_saveReflectionToGroup)
  from a have t2: "trim t2 \<noteq> []" by metis
  from a have d1: "distinct (map entryKey (loadBucket ?s1 (bucketKey g L)))"
    by (simp add: saveReflectionToGroup_distinct)
  from a have g: "g \<noteq> []" by simp
  from saveReflectionToGroup_count [OF g1 g t2 d1, of now2] a
  show "countEntries (authorName s) (trim t1)
        (loadBucket (saveReflectionToGroup L t2 now2 ?s1) (bucketKey g L)) = 1"
    by (simp add: authorName_saveReflectionToGroup)
qed

theorem bucket_no_duplicates_witness:
  "getGroupId amaDevice = Some (js ''8B'') \<and> js ''8B'' \<noteq> [] \<and>
   trim (js ''Hello, it's great!  '') = trim (js ''  Hello, it's great!'') \<and>
   trim (js ''Hello, it's great!  '') \<noteq> [] \<and>
   distinct (map entryKey (loadBucket amaDevice (bucketKey (js ''8B'') 3))) \<and>
   countEntries (js ''Ama'') (js ''Hello, it's great!'')
     (loadBucket
        (saveReflectionToGroup 3 (js ''  Hello, it's great!'') 1700000000001
           (saveReflectionToGroup 3 (js ''Hello, it's great!  '') 1700000000000 amaDevice))
        (bucketKey (js ''8B'') 3)) = 1 \<and>
   distinct (map entryKey (loadBucket classDevice (bucketKey (js ''8B'') 3)))"
proof -
  have h1: "js ''8B'' \<noteq> []" by (simp add: js_def)
  have h2: "trim (js ''Hello, it's great!  '') = trim (js ''  Hello, it's great!'')"
    by (simp add: string_eval)
  have h3: "trim (js ''Hello, it's great!  '') \<noteq> []"
    unfolding ama_trim by (simp add: js_def)
  have h4: "distinct (map entryKey (loadBucket amaDevice (bucketKey (js ''8B'') 3)))"
    by (simp add: loadBucket_def amaDevice_buckets)
  have a: "authorName amaDevice = js ''Ama''"
    by (simp add: authorName_def amaDevice_name js_def)
  have c: "classDevice =
     run [SetStudentName (js ''Ama''), SetGroupId (JString (js '' 8B '')),
          SaveDraft 3 (js ''Hello, it's great!  ''),
          SaveReflectionToGroup 3 (js ''Hello, it's great!  '') 1699999999999,
          ImportPeerInsight kofiPayload 3] emptyStorage"
    by (simp add: classDevice_def amaDevice_def run_def)
  note t = bucket_no_duplicates [of "bucketKey (js ''8B'') 3" amaDevice 3 "[]" 0 "[]"
      "[SetStudentName (js ''Ama''), SetGroupId (JString (js '' 8B '')),
          SaveDraft 3 (js ''Hello, it's great!  ''),
          SaveReflectionToGroup 3 (js ''Hello, it's great!  '') 1699999999999,
          ImportPeerInsight kofiPayload 3]" "js ''8B''" "js ''Hello, it's great!  ''"
      "js ''  Hello, it's great!''" 1700000000001 1700000000000]
  from t amaDevice_group h1 h2 h3 h4 show ?thesis
    unfolding c [symmetric] a ama_trim by blast
qed

text \<open>
  For texts that trim to the empty string the last part does not hold as first
  stated: both calls are no-ops and the bucket has no such entry.
\<close>

theorem bucket_no_duplicates_counterexample:
  "getGroupId amaDevice = Some (js ''8B'') \<and>
   trim (js '' '') = trim (js ''  '') \<and>
   countEntries (authorName amaDevice) (trim (js '' ''))
     (loadBucket
        (saveReflectionToGroup 3 (js ''  '') 1700000000001
           (saveReflectionToGroup 3 (js '' '') 1700000000000 amaDevice))
        (bucketKey (js ''8B'') 3)) = 0"
proof -
  have t: "trim (js '' '') = []" "trim (js ''  '') = []"
    by (simp_all add: string_eval)
  have "saveReflectionToGroup 3 (js ''  '') 1700000000001
           (saveReflectionToGroup 3 (js '' '') 1700000000000 amaDevice) = amaDevice"
    by (simp add: saveReflectionToGroup_noop t)
  then show ?thesis
    by (simp add: t amaDevice_group loadBucket_def amaDevice_buckets countEntries_def)
qed

section \<open>The text of a stored entry\<close>

lemma saveReflectionToGroup_text_trimmed:
  assumes "\<forall>e \<in> set (loadBucket s k). entry_text e \<noteq> [] \<and> trim (entry_text e) = entry_text e"
  shows "\<forall>e \<in> set (loadBucket (saveReflectionToGroup L t now s) k).
           entry_text e \<noteq> [] \<and> trim (entry_text e) = entry_text e"
proof (cases "getGroupId s = None \<or> getGroupId s = Some [] \<or> trim t = []")
  case True
  then show ?thesis
    using assms by (simp add: saveReflectionToGroup_noop)
next
  case False
  then obtain g where g: "getGroupId s = Some g" "g \<noteq> []" and t: "trim t \<noteq> []"
    by auto
  show ?thesis
  proof (cases "k = bucketKey g L")
    case True
    with assms t show ?thesis
      by (auto simp: saveReflectionToGroup_cases [OF g t] loadBucket_storeBucket trim_idem)
  next
    case False
    with assms show ?thesis
      by (simp add: saveReflectionToGroup_cases [OF g t] loadBucket_storeBucket_other)
  qed
qed

lemma spacedPayload_fields:
  "split 0x7C (js ''8B|3|1700000000000|%20Hi%20|Kofi|M'') =
     [js ''8B'', js ''3'', js ''1700000000000'', js ''%20Hi%20'', js ''Kofi'', js ''M'']"
  by (simp add: js_def)

lemma spacedPayload_text: "decodeURIComponent (js ''%20Hi%20'') = Some (js '' Hi '')"
  by (simp add: js_def uri_eval)

text \<open>
  Claim C6 says that the text of every stored entry is non-empty and equal to
  its own trim.  \<open>saveReflectionToGroup\<close> keeps this (lemma
  \<open>saveReflectionToGroup_text_trimmed\<close>); \<open>importPeerInsight\<close> tests the trim
  of the decoded text but stores the decoded text itself.  Evaluated at a
  payload whose text field is \<open>%20Hi%20\<close>: the import succeeds and the stored
  text has a space at each end.
\<close>

theorem import_stores_untrimmed_text:
  "importPeerInsight (js ''8B|3|1700000000000|%20Hi%20|Kofi|M'') 3 amaDevice =
     (\<lparr>success = True, message = js ''Peer insight added successfully!''\<rparr>,
      storeBucket (bucketKey (js ''8B'') 3)
        [\<lparr>entry_text = js '' Hi '', entry_timestamp = 1700000000000,
          entry_student = js ''Kofi'', entry_mastery = Some True\<rparr>] amaDevice) \<and>
   trim (js '' Hi '') = js ''Hi'' \<and> js '' Hi '' \<noteq> js ''Hi''"
proof -
  have t: "trim (js '' Hi '') = js ''Hi''"
    by (simp add: string_eval)
  then have t': "trim (js '' Hi '') \<noteq> []"
    by (simp add: js_def)
  have n: "\<not> list_ex (\<lambda>r. entry_student r = js ''Kofi'' \<and> entry_text r = js '' Hi '')
             (loadBucket amaDevice (bucketKey (js ''8B'') 3))"
    by (simp add: loadBucket_def amaDevice_buckets)
  from importPeerInsight_accept [OF spacedPayload_fields kofi_lesson kofi_timestamp
      amaDevice_group spacedPayload_text t' n]
  show ?thesis
    by (simp add: loadBucket_def amaDevice_buckets t) (simp add: js_def)
qed

section \<open>Loading the peers' reflections\<close>

text \<open>
  Claim C7.  \<open>loadPeerReflections(L)\<close> is a total function returning a list.
  With no group set it returns the empty list.  With group \<open>g\<close> set it returns
  the entries of the bucket of \<open>(g, L)\<close>, in the bucket's order, without the
  entries whose student is the stored display name; this is stated for every
  storage whose group is non-empty, and for every storage reached by a sequence
  of operations, where the group is never empty.  No returned entry has the
  caller's stored display name as its student, and what is stored under any
  other group's bucket has no influence on the result.
\<close>

theorem loadPeerReflections_spec:
  "(getGroupId s = None \<longrightarrow> loadPeerReflections L s = []) \<and>
   (getGroupId s = Some g \<and> g \<noteq> [] \<longrightarrow>
      loadPeerReflections L s =
        filter (\<lambda>e. Some (entry_student e) \<noteq> items s STUDENT_NAME_KEY)
          (loadBucket s (bucketKey g L))) \<and>
   (getGroupId (run ops emptyStorage) = Some g \<longrightarrow>
      loadPeerReflections L (run ops emptyStorage) =
        filter (\<lambda>e. Some (entry_student e) \<noteq> items (run ops emptyStorage) STUDENT_NAME_KEY)
          (loadBucket (run ops emptyStorage) (bucketKey g L))) \<and>
   (\<forall>e \<in> set (loadPeerReflections L s). Some (entry_student e) \<noteq> items s STUDENT_NAME_KEY) \<and>
   (getGroupId s = Some g \<and> g' \<noteq> g \<longrightarrow>
      loadPeerReflections L (storeBucket (bucketKey g' L') es s) = loadPeerReflections L s)"
proof (intro conjI impI)
  assume "getGroupId s = None"
  then show "loadPeerReflections L s = []"
    by (simp add: loadPeerReflections_def)
next
  assume "getGroupId s = Some g \<and> g \<noteq> []"
  then show "loadPeerReflections L s =
        filter (\<lambda>e. Some (entry_student e) \<noteq> items s STUDENT_NAME_KEY)
          (loadBucket s (bucketKey g L))"
    by (simp add: loadPeerReflections_def)
next
  assume a: "getGroupId (run ops emptyStorage) = Some g"
  then have "g \<noteq> []" by (rule run_group_nonempty)
  with a show "loadPeerReflections L (run ops emptyStorage) =
        filter (\<lambda>e. Some (entry_student e) \<noteq> items (run ops emptyStorage) STUDENT_NAME_KEY)
          (loadBucket (run ops emptyStorage) (bucketKey g L))"
    by (simp add: loadPeerReflections_def)
next
  show "\<forall>e \<in> set (loadPeerReflections L s). Some (entry_student e) \<noteq> items s STUDENT_NAME_KEY"
    by (auto simp: loadPeerReflections_def split: option.splits)
next
  assume a: "getGroupId s = Some g \<and> g' \<noteq> g"
  then have "bucketKey g L \<noteq> bucketKey g' L'"
    by (auto simp: bucketKey_inject)
  then have "loadBucket (storeBucket (bucketKey g' L') es s) (bucketKey g L) =
               loadBucket s (bucketKey g L)"
    by (rule loadBucket_storeBucket_other)
  with a show "loadPeerReflections L (storeBucket (bucketKey g' L') es s) = loadPeerReflections L s"
    by (simp add: loadPeerReflections_def getGroupId_storeBucket items_storeBucket)
qed

theorem loadPeerReflections_spec_witness:
  "getGroupId emptyStorage = None \<and>
   loadPeerReflections 3 emptyStorage = [] \<and>
   getGroupId classDevice = Some (js ''8B'') \<and>
   js ''8B'' \<noteq> [] \<and>
   loadPeerReflections 3 classDevice =
     [\<lparr>entry_text = js ''Hello, it's great!'', entry_timestamp = 1700000000000,
       entry_student = js ''Kofi'', entry_mastery = Some True\<rparr>] \<and>
   js ''9A'' \<noteq> js ''8B'' \<and>
   loadPeerReflections 3
     (storeBucket (bucketKey (js ''9A'') 3)
        [\<lparr>entry_text = js ''Other class'', entry_timestamp = 1700000000001,
          entry_student = js ''Esi'', entry_mastery = Some False\<rparr>] classDevice) =
     [\<lparr>entry_text = js ''Hello, it's great!'', entry_timestamp = 1700000000000,
       entry_student = js ''Kofi'', entry_mastery = Some True\<rparr>]"
proof -
  have h0: "getGroupId emptyStorage = None"
    by (simp add: getGroupId_def emptyStorage_def)
  have h1: "getGroupId classDevice = Some (js ''8B'')"
    by (simp add: classDevice_eq getGroupId_storeBucket amaDevice_group)
  have h2: "js ''8B'' \<noteq> []" "js ''9A'' \<noteq> js ''8B''"
    by (simp_all add: js_def)
  have n: "items classDevice STUDENT_NAME_KEY = Some (js ''Ama'')"
    by (simp add: classDevice_eq items_storeBucket amaDevice_name)
  have f: "filter (\<lambda>e. Some (entry_student e) \<noteq> items classDevice STUDENT_NAME_KEY)
          (loadBucket classDevice (bucketKey (js ''8B'') 3)) =
     [\<lparr>entry_text = js ''Hello, it's great!'', entry_timestamp = 1700000000000,
       entry_student = js ''Kofi'', entry_mastery = Some True\<rparr>]"
    unfolding n by (simp add: classDevice_eq loadBucket_storeBucket js_def)
  note t = loadPeerReflections_spec [of emptyStorage 3 "js ''8B''" "[]" "js ''9A''" 3 "[]"]
    loadPeerReflections_spec [of classDevice 3 "js ''8B''" "[]" "js ''9A''" 3
      "[\<lparr>entry_text = js ''Other class'', entry_timestamp = 1700000000001,
          entry_student = js ''Esi'', entry_mastery = Some False\<rparr>]"]
  from t h0 h1 h2 show ?thesis
    unfolding f by simp
qed

section \<open>Malformed payloads\<close>

lemma parseInt_reads_a_prefix: "parseInt (js ''3rd'') = Some 3"
  by (simp add: string_eval number_eval)

text \<open>
  Claim C8.  A payload that splits on \<open>|\<close> into fewer than six fields is
  refused with "Invalid format. Paste the full message."; one with at least
  six fields whose lesson field or timestamp field does not parse as a number
  (\<open>parseInt\<close> gives NaN; a field with a numeric prefix, such as \<open>3rd\<close>,
  parses) is refused with "Invalid timestamp or chapter.".
  In both cases the storage returned is the storage given.
\<close>

theorem importPeerInsight_malformed:
  "(length (split 0x7C payload) < 6 \<longrightarrow>
      importPeerInsight payload L s =
        (\<lparr>success = False, message = js ''Invalid format. Paste the full message.''\<rparr>, s)) \<and>
   (6 \<le> length (split 0x7C payload) \<and>
      (parseInt (split 0x7C payload ! 1) = None \<or> parseInt (split 0x7C payload ! 2) = None) \<longrightarrow>
      importPeerInsight payload L s =
        (\<lparr>success = False, message = js ''Invalid timestamp or chapter.''\<rparr>, s))"
proof (intro conjI impI)
  assume "length (split 0x7C payload) < 6"
  then show "importPeerInsight payload L s =
        (\<lparr>success = False, message = js ''Invalid format. Paste the full message.''\<rparr>, s)"
    unfolding importPeerInsight_def by (rule few_fields)
next
  assume a: "6 \<le> length (split 0x7C payload) \<and>
      (parseInt (split 0x7C payload ! 1) = None \<or> parseInt (split 0x7C payload ! 2) = None)"
  then obtain g c t e n m r where p: "split 0x7C payload = g # c # t # e # n # m # r"
    and c: "split 0x7C payload ! 1 = c" and t: "split 0x7C payload ! 2 = t"
    by (blast elim: fieldsE)
  from a [unfolded c t] show "importPeerInsight payload L s =
        (\<lparr>success = False, message = js ''Invalid timestamp or chapter.''\<rparr>, s)"
    unfolding importPeerInsight_def p by (auto split: option.splits)
qed

theorem importPeerInsight_malformed_witness:
  "length (split 0x7C (js ''8B|3|1700000000000'')) < 6 \<and>
   importPeerInsight (js ''8B|3|1700000000000'') 3 emptyStorage =
     (\<lparr>success = False, message = js ''Invalid format. Paste the full message.''\<rparr>, emptyStorage) \<and>
   6 \<le> length (split 0x7C (js ''8B|three|1700000000000|Hi|Ama|M'')) \<and>
   parseInt (split 0x7C (js ''8B|three|1700000000000|Hi|Ama|M'') ! 1) = None \<and>
   importPeerInsight (js ''8B|three|1700000000000|Hi|Ama|M'') 3 emptyStorage =
     (\<lparr>success = False, message = js ''Invalid timestamp or chapter.''\<rparr>, emptyStorage)"
proof -
  have h1: "length (split 0x7C (js ''8B|3|1700000000000'')) < 6"
    by (simp add: js_def)
  have h2: "6 \<le> length (split 0x7C (js ''8B|three|1700000000000|Hi|Ama|M''))"
    by (simp add: js_def)
  have h3: "parseInt (split 0x7C (js ''8B|three|1700000000000|Hi|Ama|M'') ! 1) = None"
    by (simp add: js_def parseInt_def trimStart_def isWhiteSpace_def isDigit_def)
  show ?thesis
    using h1 h2 h3
      importPeerInsight_malformed [of "js ''8B|3|1700000000000''" 3 emptyStorage]
      importPeerInsight_malformed [of "js ''8B|three|1700000000000|Hi|Ama|M''" 3 emptyStorage]
    by blast
qed

section \<open>Setting the group\<close>

text \<open>
  Claim C9.  \<open>setGroupId(name)\<close> returns the storage unchanged when
  \<open>name\<close> is not a string or trims to the empty string.  Otherwise the
  group slot holds the trimmed name afterwards, whatever it held before, every
  bucket is unchanged and so is every other string slot.  Hence after any
  sequence of operations (from the empty storage, or from any storage whose
  group slot is valid) the group slot is empty or holds a non-empty string
  equal to its own trim.
\<close>

theorem setGroupId_effect:
  "((\<forall>n. name \<noteq> JString n) \<longrightarrow> setGroupId name s = s) \<and>
   (trim n = [] \<longrightarrow> setGroupId (JString n) s = s) \<and>
   (trim n \<noteq> [] \<longrightarrow>
      getGroupId (setGroupId (JString n) s) = Some (trim n) \<and>
      buckets (setGroupId (JString n) s) = buckets s \<and>
      (\<forall>k. k \<noteq> GROUP_KEY \<longrightarrow> items (setGroupId (JString n) s) k = items s k)) \<and>
   (groupIdValid s \<longrightarrow> groupIdValid (run ops s)) \<and>
   groupIdValid (run ops emptyStorage)"
proof (intro conjI impI)
  assume "\<forall>n. name \<noteq> JString n"
  then show "setGroupId name s = s"
    by (cases name) (simp_all add: setGroupId_def)
next
  assume "trim n = []"
  then show "setGroupId (JString n) s = s"
    by (simp add: setGroupId_def)
next
  assume t: "trim n \<noteq> []"
  then show "getGroupId (setGroupId (JString n) s) = Some (trim n)"
    by (simp add: setGroupId_def getGroupId_def)
  from t show "buckets (setGroupId (JString n) s) = buckets s"
    by (simp add: setGroupId_def)
  from t show "\<forall>k. k \<noteq> GROUP_KEY \<longrightarrow> items (setGroupId (JString n) s) k = items s k"
    by (simp add: setGroupId_def)
next
  assume "groupIdValid s"
  then show "groupIdValid (run ops s)" by (rule run_valid)
next
  show "groupIdValid (run ops emptyStorage)"
    using emptyStorage_valid by (rule run_valid)
qed

theorem setGroupId_effect_witness:
  "setGroupId JNull amaDevice = amaDevice \<and>
   trim (js ''   '') = [] \<and>
   setGroupId (JString (js ''   '')) amaDevice = amaDevice \<and>
   trim (js '' 9A '') \<noteq> [] \<and>
   getGroupId (setGroupId (JString (js '' 9A '')) amaDevice) = Some (js ''9A'') \<and>
   buckets (setGroupId (JString (js '' 9A '')) amaDevice) = buckets amaDevice \<and>
   groupIdValid amaDevice"
proof -
  have a: "\<forall>n. JNull \<noteq> JString n" by simp
  have b: "trim (js ''   '') = []" by (simp add: string_eval)
  have c: "trim (js '' 9A '') = js ''9A''" by (simp add: string_eval)
  have d: "js ''9A'' \<noteq> []" by (simp add: js_def)
  from setGroupId_effect [of JNull amaDevice "js ''   ''" "[]"]
    setGroupId_effect [of JNull amaDevice "js '' 9A ''"
      "[SetStudentName (js ''Ama''), SetGroupId (JString (js '' 8B '')),
        SaveDraft 3 (js ''Hello, it's great!  '')]"]
    a b c d
  show ?thesis
    unfolding amaDevice_def [symmetric] by (simp add: c)
qed

section \<open>Importing without a group\<close>

text \<open>
  Claim C10.  On a device whose group slot is unset (\<open>getGroupId\<close> gives
  null) no import succeeds and none changes the storage; a payload that passes
  the field count and the two numeric checks is refused at the group gate, with
  the group-mismatch message in which the importer's group reads "null".
\<close>

theorem import_without_group:
  assumes "getGroupId s = None"
  shows "\<not> success (fst (importPeerInsight p L s)) \<and> snd (importPeerInsight p L s) = s \<and>
         (6 \<le> length (split 0x7C p) \<and> parseInt (split 0x7C p ! 1) \<noteq> None \<and>
            parseInt (split 0x7C p ! 2) \<noteq> None \<longrightarrow>
          importPeerInsight p L s =
            (\<lparr>success = False,
              message = js ''Insight is for group '' @ [0x22] @ split 0x7C p ! 0 @ [0x22] @
                        js '', but you're in '' @ [0x22] @ js ''null'' @ [0x22] @ js ''.''\<rparr>, s))"
proof (intro conjI impI)
  show ns: "\<not> success (fst (importPeerInsight p L s))"
  proof
    assume "success (fst (importPeerInsight p L s))"
    then obtain g where "getGroupId s = Some g"
      by (rule importPeerInsight_success)
    with assms show False by simp
  qed
  then show "snd (importPeerInsight p L s) = s"
    by (rule importPeerInsight_failure)
next
  assume a: "6 \<le> length (split 0x7C p) \<and> parseInt (split 0x7C p ! 1) \<noteq> None \<and>
            parseInt (split 0x7C p ! 2) \<noteq> None"
  then obtain g c t e n m r where f: "split 0x7C p = g # c # t # e # n # m # r"
    and g: "split 0x7C p ! 0 = g" and c: "split 0x7C p ! 1 = c" and t: "split 0x7C p ! 2 = t"
    by (blast elim: fieldsE)
  from a [unfolded c t] obtain ch ts where "parseInt c = Some ch" "parseInt t = Some ts"
    by auto
  then show "importPeerInsight p L s =
            (\<lparr>success = False,
              message = js ''Insight is for group '' @ [0x22] @ split 0x7C p ! 0 @ [0x22] @
                        js '', but you're in '' @ [0x22] @ js ''null'' @ [0x22] @ js ''.''\<rparr>, s)"
    unfolding importPeerInsight_def f g
    by (simp add: Let_def assms groupMismatch_def)
qed

theorem import_without_group_witness:
  \<open>getGroupId emptyStorage = None \<and>
   6 \<le> length (split 0x7C kofiPayload) \<and>
   parseInt (split 0x7C kofiPayload ! 1) \<noteq> None \<and>
   parseInt (split 0x7C kofiPayload ! 2) \<noteq> None \<and>
   importPeerInsight kofiPayload 3 emptyStorage =
     (\<lparr>success = False,
       message = js ''Insight is for group "8B", but you're in "null".''\<rparr>, emptyStorage)\<close>
proof -
  have h0: "getGroupId emptyStorage = None"
    by (simp add: getGroupId_def emptyStorage_def)
  have h: "6 \<le> length (split 0x7C kofiPayload) \<and>
     parseInt (split 0x7C kofiPayload ! 1) \<noteq> None \<and>
     parseInt (split 0x7C kofiPayload ! 2) \<noteq> None"
    by (simp add: kofi_fields string_eval number_eval)
  have m: \<open>js ''Insight is for group '' @ [0x22] @ split 0x7C kofiPayload ! 0 @ [0x22] @
           js '', but you're in '' @ [0x22] @ js ''null'' @ [0x22] @ js ''.'' =
           js ''Insight is for group "8B", but you're in "null".''\<close>
    by (simp add: kofi_fields js_def)
  from import_without_group [OF h0, of kofiPayload 3] h h0 show ?thesis
    unfolding m by blast
qed

end
